theory Spec2Isabelle
  imports Complex_Main
begin

section \<open>Python values: errors, fields, strings, integers\<close>

text \<open>
  The loaders of \<^verbatim>\<open>data_loader.py\<close> read rows of a \<^verbatim>\<open>csv.reader\<close>: every row is a list
  of strings. An exception of the source is a value \<open>Inl e\<close>; a normal result is \<open>Inr v\<close>.
  Strings are lists of 8-bit characters; the case mappings and the white space test below
  cover the ASCII range and leave every other character alone, and \<open>py_int\<close> reads the
  decimal literals of ASCII digits (of any length).
\<close>

datatype py_error = ValueError | KeyError | IndexError | ZeroDivisionError | AssertionError

definition bind_err :: "py_error + 'a \<Rightarrow> ('a \<Rightarrow> py_error + 'b) \<Rightarrow> py_error + 'b" where
  "bind_err m f = (case m of Inl e \<Rightarrow> Inl e | Inr v \<Rightarrow> f v)"

definition get_item :: "'a list \<Rightarrow> nat \<Rightarrow> py_error + 'a" where
  \<comment> \<open>\<^verbatim>\<open>xs[i]\<close> for a literal index \<open>i \<ge> 0\<close>: IndexError past the end.\<close>
  "get_item xs i = (if i < length xs then Inr (xs ! i) else Inl IndexError)"

definition py_isspace :: "char \<Rightarrow> bool" where
  "py_isspace c = (c \<in> {CHR 0x09, CHR 0x0A, CHR 0x0B, CHR 0x0C, CHR 0x0D,
                         CHR 0x1C, CHR 0x1D, CHR 0x1E, CHR 0x1F, CHR 0x20})"

definition py_strip :: "string \<Rightarrow> string" where
  "py_strip s = rev (dropWhile py_isspace (rev (dropWhile py_isspace s)))"

definition lower_letters :: string where
  "lower_letters = ''abcdefghijklmnopqrstuvwxyz''"

definition upper_letters :: string where
  "upper_letters = ''ABCDEFGHIJKLMNOPQRSTUVWXYZ''"

definition py_upper_char :: "char \<Rightarrow> char" where
  "py_upper_char c =
     (case map_of (zip lower_letters upper_letters) c of None \<Rightarrow> c | Some u \<Rightarrow> u)"

definition py_lower_char :: "char \<Rightarrow> char" where
  "py_lower_char c =
     (case map_of (zip upper_letters lower_letters) c of None \<Rightarrow> c | Some l \<Rightarrow> l)"

definition py_upper :: "string \<Rightarrow> string" where
  "py_upper s = map py_upper_char s"

fun py_capitalize :: "string \<Rightarrow> string" where
  "py_capitalize [] = []"
| "py_capitalize (c # cs) = py_upper_char c # map py_lower_char cs"

fun starts_with :: "string \<Rightarrow> string \<Rightarrow> bool" where
  "starts_with [] s = True"
| "starts_with (p # ps) [] = False"
| "starts_with (p # ps) (c # cs) = (p = c \<and> starts_with ps cs)"

fun py_in :: "string \<Rightarrow> string \<Rightarrow> bool" where
  \<comment> \<open>\<^verbatim>\<open>sub in s\<close> on strings\<close>
  "py_in sub [] = (sub = [])"
| "py_in sub (c # cs) = (starts_with sub (c # cs) \<or> py_in sub cs)"

fun py_split :: "char \<Rightarrow> string \<Rightarrow> string list" where
  \<comment> \<open>\<^verbatim>\<open>s.split(sep)\<close> for a one-character separator\<close>
  "py_split sep [] = [[]]"
| "py_split sep (c # cs) =
     (if c = sep then [] # py_split sep cs
      else (case py_split sep cs of [] \<Rightarrow> [[c]] | w # ws \<Rightarrow> (c # w) # ws))"

definition is_digit :: "char \<Rightarrow> bool" where
  "is_digit c = (let n = (of_char c :: nat) in 48 \<le> n \<and> n \<le> 57)"

definition digit_val :: "char \<Rightarrow> int" where
  "digit_val c = int (of_char c) - 48"

fun digits_from :: "int \<Rightarrow> string \<Rightarrow> int option" where
  \<comment> \<open>the rest of a decimal literal; one underscore may stand between two digits\<close>
  "digits_from acc [] = Some acc"
| "digits_from acc [c] = (if is_digit c then Some (acc * 10 + digit_val c) else None)"
| "digits_from acc (c # d # ds) =
     (if is_digit c then digits_from (acc * 10 + digit_val c) (d # ds)
      else if c = CHR ''_'' \<and> is_digit d then digits_from (acc * 10 + digit_val d) ds
      else None)"

definition decimal_literal :: "string \<Rightarrow> int option" where
  "decimal_literal s =
     (case s of [] \<Rightarrow> None
      | c # cs \<Rightarrow> if is_digit c then digits_from (digit_val c) cs else None)"

definition py_int :: "string \<Rightarrow> py_error + int" where
  \<comment> \<open>\<^verbatim>\<open>int(s)\<close>: surrounding white space, an optional sign, a decimal literal\<close>
  "py_int s =
     (case (case py_strip s of
              [] \<Rightarrow> None
            | c # cs \<Rightarrow>
                if c = CHR ''-'' then map_option uminus (decimal_literal cs)
                else if c = CHR ''+'' then decimal_literal cs
                else decimal_literal (c # cs))
      of None \<Rightarrow> Inl ValueError | Some n \<Rightarrow> Inr n)"

section \<open>Districts\<close>

text \<open>
  Modelled from the spec: the class \<^verbatim>\<open>District\<close> of \<^verbatim>\<open>districts.py\<close> is not part of the
  sources at hand. A district has an integer id and a name; equality and hashing are by id
  (\<open>district_eq\<close>). Its table of closeness scores plays no part below and is left out.
\<close>

record district =
  district_id :: int
  district_name :: string

definition district_eq :: "district \<Rightarrow> district \<Rightarrow> bool" where
  "district_eq a b = (district_id a = district_id b)"

text \<open>
  A Python \<^verbatim>\<open>set\<close> of districts is a list without two members of one id, in insertion
  order. \<^verbatim>\<open>s.add(d)\<close> leaves the set as it is when a member equal to \<open>d\<close> is present.
\<close>

definition set_add :: "district \<Rightarrow> district list \<Rightarrow> district list" where
  "set_add d ds = (if district_id d \<in> set (map district_id ds) then ds else ds @ [d])"

definition district_index :: "district list \<Rightarrow> (int \<rightharpoonup> district)" where
  \<comment> \<open>\<^verbatim>\<open>{target.district_id: target for target in districts}\<close>\<close>
  "district_index districts = fold (\<lambda>target m. m(district_id target \<mapsto> target)) districts Map.empty"

definition dict_lookup :: "('k \<rightharpoonup> 'v) \<Rightarrow> 'k \<Rightarrow> py_error + 'v" where
  \<comment> \<open>\<^verbatim>\<open>d[k]\<close>: KeyError for a missing key\<close>
  "dict_lookup d k = (case d k of None \<Rightarrow> Inl KeyError | Some v \<Rightarrow> Inr v)"

fun dict_set :: "district \<Rightarrow> 'v \<Rightarrow> (district \<times> 'v) list \<Rightarrow> (district \<times> 'v) list" where
  \<comment> \<open>\<^verbatim>\<open>d[k] = v\<close> on a dict with district keys: a key already present keeps its place\<close>
  "dict_set k v [] = [(k, v)]"
| "dict_set k v ((k', v') # rest) =
     (if district_eq k' k then (k', v) # rest else (k', v') # dict_set k v rest)"

subsection \<open>load_district_data\<close>

fun district_rows :: "string list list \<Rightarrow> district list \<Rightarrow> py_error + district list" where
  "district_rows [] districts = Inr districts"
| "district_rows (row # rest) districts =
     bind_err (get_item row 1) (\<lambda>f1.
     bind_err (py_int f1) (\<lambda>i.
     bind_err (get_item row 2) (\<lambda>name.
       district_rows rest (set_add \<lparr>district_id = i, district_name = name\<rparr> districts))))"

definition load_district_data :: "string list list \<Rightarrow> py_error + district list" where
  \<comment> \<open>the argument is the content of the file as the csv reader yields it, header first\<close>
  "load_district_data file_rows = district_rows (drop 1 file_rows) []"

section \<open>Floats\<close>

text \<open>
  A Python float is a finite number, an infinity or nan. The two zeros are one value here:
  no comparison and no error of the code below tells them apart. The result of an
  operation on finite numbers is rounded by \<open>rnd\<close> and becomes an infinity beyond \<open>fmax\<close>,
  the largest finite float. Both are parameters, a format; \<open>ieee_like\<close> says what the
  theorems need of a format: rounding is monotone and keeps 0 and 1, and 1 is a float.
\<close>

datatype pyfloat = Fin real | PosInf | NegInf | NaN

record float_format =
  rnd :: "real \<Rightarrow> real"
  fmax :: real

definition ieee_like :: "float_format \<Rightarrow> bool" where
  "ieee_like ff = (mono (rnd ff) \<and> rnd ff 0 = 0 \<and> rnd ff 1 = 1 \<and> 1 \<le> fmax ff)"

definition fl :: "float_format \<Rightarrow> real \<Rightarrow> pyfloat" where
  "fl ff x =
     (if fmax ff < rnd ff x then PosInf
      else if rnd ff x < - fmax ff then NegInf
      else Fin (rnd ff x))"

fun flt :: "pyfloat \<Rightarrow> pyfloat \<Rightarrow> bool" where
  \<comment> \<open>\<^verbatim>\<open>a < b\<close>\<close>
  "flt (Fin x) (Fin y) = (x < y)"
| "flt (Fin x) PosInf = True"
| "flt NegInf (Fin y) = True"
| "flt NegInf PosInf = True"
| "flt a b = False"

fun fle :: "pyfloat \<Rightarrow> pyfloat \<Rightarrow> bool" where
  \<comment> \<open>\<^verbatim>\<open>a <= b\<close>\<close>
  "fle (Fin x) (Fin y) = (x \<le> y)"
| "fle NaN b = False"
| "fle a NaN = False"
| "fle NegInf b = True"
| "fle a PosInf = True"
| "fle a b = False"

fun feq :: "pyfloat \<Rightarrow> pyfloat \<Rightarrow> bool" where
  \<comment> \<open>\<^verbatim>\<open>a == b\<close>\<close>
  "feq (Fin x) (Fin y) = (x = y)"
| "feq PosInf PosInf = True"
| "feq NegInf NegInf = True"
| "feq a b = False"

fun fsub :: "float_format \<Rightarrow> pyfloat \<Rightarrow> pyfloat \<Rightarrow> pyfloat" where
  \<comment> \<open>\<^verbatim>\<open>a - b\<close>\<close>
  "fsub ff (Fin x) (Fin y) = fl ff (x - y)"
| "fsub ff NaN b = NaN"
| "fsub ff a NaN = NaN"
| "fsub ff PosInf PosInf = NaN"
| "fsub ff NegInf NegInf = NaN"
| "fsub ff PosInf b = PosInf"
| "fsub ff NegInf b = NegInf"
| "fsub ff (Fin x) PosInf = NegInf"
| "fsub ff (Fin x) NegInf = PosInf"

fun fdiv :: "float_format \<Rightarrow> pyfloat \<Rightarrow> pyfloat \<Rightarrow> pyfloat" where
  \<comment> \<open>the quotient for a divisor that is not zero\<close>
  "fdiv ff (Fin x) (Fin y) = fl ff (x / y)"
| "fdiv ff NaN b = NaN"
| "fdiv ff a NaN = NaN"
| "fdiv ff (Fin x) b = Fin 0"
| "fdiv ff PosInf (Fin y) = (if 0 < y then PosInf else NegInf)"
| "fdiv ff NegInf (Fin y) = (if 0 < y then NegInf else PosInf)"
| "fdiv ff a b = NaN"

definition py_truediv :: "float_format \<Rightarrow> pyfloat \<Rightarrow> pyfloat \<Rightarrow> py_error + pyfloat" where
  \<comment> \<open>\<^verbatim>\<open>a / b\<close>: ZeroDivisionError for a zero divisor, whatever \<open>a\<close> is\<close>
  "py_truediv ff a b = (if feq b (Fin 0) then Inl ZeroDivisionError else Inr (fdiv ff a b))"

definition py_min :: "pyfloat \<Rightarrow> pyfloat \<Rightarrow> pyfloat" where
  \<comment> \<open>\<^verbatim>\<open>min(a, b)\<close>: the first argument unless the second is smaller\<close>
  "py_min a b = (if flt b a then b else a)"

definition py_max :: "pyfloat \<Rightarrow> pyfloat \<Rightarrow> pyfloat" where
  \<comment> \<open>\<^verbatim>\<open>max(a, b)\<close>: the first argument unless the second is greater\<close>
  "py_max a b = (if flt a b then b else a)"

section \<open>District distances\<close>

type_synonym distance_table = "(district \<times> (district \<times> pyfloat) list) list"

subsection \<open>get_raw_district_distances\<close>

text \<open>
  \<^verbatim>\<open>float(s)\<close> is a parameter \<open>py_float\<close> of the loader. A \<^verbatim>\<open>District\<close> object is always
  true in a condition, so \<^verbatim>\<open>not origin\<close> and \<^verbatim>\<open>not destination\<close> are false whenever they
  are reached.
\<close>

fun read_destinations ::
  "(string \<Rightarrow> py_error + pyfloat) \<Rightarrow> (int \<rightharpoonup> district) \<Rightarrow> district \<Rightarrow> string list \<Rightarrow>
   (district \<times> pyfloat) list \<Rightarrow> py_error + (district \<times> pyfloat) list" where
  "read_destinations py_float district_lookup origin [] district_distances = Inr district_distances"
| "read_destinations py_float district_lookup origin (mapping # rest) district_distances =
     (let mapping_split = py_split CHR '':'' mapping in
      bind_err (get_item mapping_split 0) (\<lambda>f0.
      bind_err (py_int f0) (\<lambda>destination_id.
      bind_err (get_item mapping_split 1) (\<lambda>f1.
      bind_err (py_float f1) (\<lambda>distance.
      bind_err (dict_lookup district_lookup destination_id) (\<lambda>destination.
        if district_eq destination origin
        then read_destinations py_float district_lookup origin rest district_distances
        else read_destinations py_float district_lookup origin rest
               (dict_set destination distance district_distances)))))))"

fun read_distance_rows ::
  "(string \<Rightarrow> py_error + pyfloat) \<Rightarrow> (int \<rightharpoonup> district) \<Rightarrow> string list list \<Rightarrow>
   distance_table \<Rightarrow> py_error + distance_table" where
  "read_distance_rows py_float district_lookup [] raw_district_distances = Inr raw_district_distances"
| "read_distance_rows py_float district_lookup (row # rest) raw_district_distances =
     bind_err (get_item row 0) (\<lambda>district_id.
     bind_err (py_int district_id) (\<lambda>origin_id.
     bind_err (dict_lookup district_lookup origin_id) (\<lambda>origin.
     bind_err (get_item row 1) (\<lambda>f1.
     bind_err (read_destinations py_float district_lookup origin (py_split CHR ''|'' f1) [])
       (\<lambda>district_distances.
         read_distance_rows py_float district_lookup rest
           (dict_set origin district_distances raw_district_distances))))))"

definition get_raw_district_distances ::
  "(string \<Rightarrow> py_error + pyfloat) \<Rightarrow> district list \<Rightarrow> string list list \<Rightarrow> py_error + distance_table" where
  "get_raw_district_distances py_float districts file_rows =
     read_distance_rows py_float (district_index districts) (drop 1 file_rows) []"

subsection \<open>normalize_district_distances\<close>

text \<open>
  \<^verbatim>\<open>math.inf\<close>, the first value of \<^verbatim>\<open>min_distance\<close>, is \<open>PosInf\<close>, and the integer 0, the first
  value of \<^verbatim>\<open>max_distance\<close>, is \<open>Fin 0\<close>. The function returns the table that the source
  leaves in the mutated dictionary; the inner dictionaries are taken to be distinct objects,
  as \<open>get_raw_district_distances\<close> builds them.
\<close>

fun scan_destinations ::
  "district \<Rightarrow> (district \<times> pyfloat) list \<Rightarrow> pyfloat \<times> pyfloat \<Rightarrow> py_error + pyfloat \<times> pyfloat" where
  "scan_destinations origin [] mm = Inr mm"
| "scan_destinations origin ((destination, distance) # rest) (min_distance, max_distance) =
     (if district_eq origin destination then Inl AssertionError
      else scan_destinations origin rest
             (py_min distance min_distance, py_max distance max_distance))"

fun scan_table :: "distance_table \<Rightarrow> pyfloat \<times> pyfloat \<Rightarrow> py_error + pyfloat \<times> pyfloat" where
  "scan_table [] mm = Inr mm"
| "scan_table ((origin, destinations) # rest) mm =
     bind_err (scan_destinations origin destinations mm) (scan_table rest)"

fun rescale_destinations ::
  "float_format \<Rightarrow> pyfloat \<Rightarrow> pyfloat \<Rightarrow> (district \<times> pyfloat) list \<Rightarrow>
   py_error + (district \<times> pyfloat) list" where
  "rescale_destinations ff min_distance difference [] = Inr []"
| "rescale_destinations ff min_distance difference ((destination, distance) # rest) =
     bind_err (py_truediv ff (fsub ff distance min_distance) difference) (\<lambda>quotient.
       let d = fsub ff (Fin 1) quotient in
       if fle (Fin 0) d \<and> fle d (Fin 1)
       then bind_err (rescale_destinations ff min_distance difference rest)
              (\<lambda>rest'. Inr ((destination, d) # rest'))
       else Inl AssertionError)"

fun rescale_table ::
  "float_format \<Rightarrow> pyfloat \<Rightarrow> pyfloat \<Rightarrow> distance_table \<Rightarrow> py_error + distance_table" where
  "rescale_table ff min_distance difference [] = Inr []"
| "rescale_table ff min_distance difference ((origin, destinations) # rest) =
     bind_err (rescale_destinations ff min_distance difference destinations) (\<lambda>destinations'.
     bind_err (rescale_table ff min_distance difference rest) (\<lambda>rest'.
       Inr ((origin, destinations') # rest')))"

definition normalize_district_distances ::
  "float_format \<Rightarrow> distance_table \<Rightarrow> py_error + distance_table" where
  "normalize_district_distances ff raw_district_distances =
     bind_err (scan_table raw_district_distances (PosInf, Fin 0)) (\<lambda>(min_distance, max_distance).
       if feq max_distance (Fin 0) then Inl ValueError
       else rescale_table ff min_distance (fsub ff max_distance min_distance)
              raw_district_distances)"

section \<open>Graphs\<close>

text \<open>
  Modelled from the spec: the classes \<^verbatim>\<open>Graph\<close> and \<^verbatim>\<open>WeightedGraph\<close> of \<^verbatim>\<open>graphs.py\<close> and
  the class \<^verbatim>\<open>User\<close> of \<^verbatim>\<open>userdata.py\<close> are not part of the sources at hand. A graph is a set
  of vertices and a set of undirected edges; a vertex is added if absent; an edge is a pair
  of vertices without order, and the graph keeps no count of how often it was added. In a
  weighted graph every edge carries a weight, the weight of an edge that does not exist is
  0, and adding an edge stores its weight. A vertex is the identity of what it stands for:
  the id of a user, the id of a district (equality by id), the name of a breed.
\<close>

record user =
  user_id :: int
  user_age :: int
  user_gender :: string
  user_district :: district

datatype vertex = UserV int | BreedV string | DistrictV int

definition user_vertex :: "user \<Rightarrow> vertex" where
  "user_vertex u = UserV (user_id u)"

definition district_vertex :: "district \<Rightarrow> vertex" where
  "district_vertex d = DistrictV (district_id d)"

record graph =
  vertices :: "vertex set"
  edges :: "vertex set set"

definition empty_graph :: graph where
  "empty_graph = \<lparr>vertices = {}, edges = {}\<rparr>"

definition add_vertex :: "graph \<Rightarrow> vertex \<Rightarrow> graph" where
  "add_vertex g item = g\<lparr>vertices := insert item (vertices g)\<rparr>"

definition add_edge :: "graph \<Rightarrow> vertex \<Rightarrow> vertex \<Rightarrow> graph" where
  "add_edge g item1 item2 = g\<lparr>edges := insert {item1, item2} (edges g)\<rparr>"

record weighted_graph =
  w_vertices :: "vertex set"
  w_edges :: "vertex set \<rightharpoonup> int"

definition empty_weighted_graph :: weighted_graph where
  "empty_weighted_graph = \<lparr>w_vertices = {}, w_edges = Map.empty\<rparr>"

definition contains :: "weighted_graph \<Rightarrow> vertex \<Rightarrow> bool" where
  "contains g item = (item \<in> w_vertices g)"

definition w_add_vertex :: "weighted_graph \<Rightarrow> vertex \<Rightarrow> weighted_graph" where
  "w_add_vertex g item = g\<lparr>w_vertices := insert item (w_vertices g)\<rparr>"

definition get_weight :: "weighted_graph \<Rightarrow> vertex \<Rightarrow> vertex \<Rightarrow> int" where
  "get_weight g item1 item2 = (case w_edges g {item1, item2} of None \<Rightarrow> 0 | Some w \<Rightarrow> w)"

definition w_add_edge :: "weighted_graph \<Rightarrow> vertex \<Rightarrow> vertex \<Rightarrow> int \<Rightarrow> weighted_graph" where
  "w_add_edge g item1 item2 weight = g\<lparr>w_edges := (w_edges g)({item1, item2} \<mapsto> weight)\<rparr>"

section \<open>load_dog_data\<close>

text \<open>
  The state of the loop over the ownership rows: the two graphs and the dictionary
  \<^verbatim>\<open>users\<close>. An exception ends the whole call, so a raising row has no state.
\<close>

record loader_state =
  dog_graph :: graph
  district_graph :: weighted_graph
  users :: "int \<rightharpoonup> user"

definition initial_state :: loader_state where
  "initial_state = \<lparr>dog_graph = empty_graph, district_graph = empty_weighted_graph, users = Map.empty\<rparr>"

definition register_user :: "(int \<rightharpoonup> district) \<Rightarrow> user \<Rightarrow> loader_state \<Rightarrow> loader_state" where
  \<comment> \<open>lines 72 to 74: the guard reads \<^verbatim>\<open>district_mapping\<close>\<close>
  "register_user district_mapping new_user st =
     (if user_id new_user \<notin> dom district_mapping
      then st\<lparr>users := (users st)(user_id new_user \<mapsto> new_user),
              dog_graph := add_vertex (dog_graph st) (user_vertex new_user)\<rparr>
      else st)"

definition link_row :: "user \<Rightarrow> string \<Rightarrow> loader_state \<Rightarrow> loader_state" where
  \<comment> \<open>lines 76 to 84\<close>
  "link_row user dog_breed st =
     (let g1 = add_vertex (dog_graph st) (BreedV dog_breed);
          g2 = add_edge g1 (BreedV dog_breed) (user_vertex user);
          d = district_vertex (user_district user);
          w0 = district_graph st;
          w1 = (if \<not> contains w0 d then w_add_vertex w0 d else w0);
          w2 = (if \<not> contains w1 (BreedV dog_breed) then w_add_vertex w1 (BreedV dog_breed) else w1);
          current_weight = get_weight w2 d (BreedV dog_breed);
          w3 = w_add_edge w2 d (BreedV dog_breed) (current_weight + 1)
      in st\<lparr>dog_graph := g2, district_graph := w3\<rparr>)"

definition process_row ::
  "(int \<rightharpoonup> district) \<Rightarrow> string list \<Rightarrow> loader_state \<Rightarrow> py_error + loader_state" where
  "process_row district_mapping row st =
     bind_err (get_item row 0) (\<lambda>f0.
     bind_err (py_int f0) (\<lambda>uid.
     bind_err (get_item row 1) (\<lambda>raw_age_range.
     if py_strip raw_age_range = [] then Inr st
     else
     bind_err (get_item row 2) (\<lambda>f2.
     let gender = py_upper f2 in
     if py_strip gender = [] then Inr st
     else
     bind_err (get_item row 4) (\<lambda>f4.
     bind_err (py_int f4) (\<lambda>did.
     case district_mapping did of
       None \<Rightarrow> Inr st
     | Some district \<Rightarrow>
     bind_err (get_item row 5) (\<lambda>f5.
     let dog_breed = py_capitalize f5 in
     if py_in ''Mischling'' dog_breed then Inr st
     else
     let split_age_range = py_split CHR ''-'' raw_age_range in
     bind_err (get_item split_age_range 0) (\<lambda>a0.
     bind_err (py_int a0) (\<lambda>lo.
     bind_err (get_item split_age_range 1) (\<lambda>a1.
     bind_err (py_int a1) (\<lambda>hi.
     let age = (lo + hi) div 2;
         st1 = register_user district_mapping
                 \<lparr>user_id = uid, user_age = age, user_gender = gender, user_district = district\<rparr> st
     in bind_err (dict_lookup (users st1) uid) (\<lambda>user.
          Inr (link_row user dog_breed st1)))))))))))))"

fun load_rows ::
  "(int \<rightharpoonup> district) \<Rightarrow> string list list \<Rightarrow> loader_state \<Rightarrow> py_error + loader_state" where
  "load_rows district_mapping [] st = Inr st"
| "load_rows district_mapping (row # rest) st =
     bind_err (process_row district_mapping row st) (load_rows district_mapping rest)"

definition load_dog_data ::
  "string list list \<Rightarrow> district list \<Rightarrow> py_error + graph \<times> weighted_graph" where
  \<comment> \<open>the first argument is the content of the file as the csv reader yields it, header first\<close>
  "load_dog_data file_rows districts =
     bind_err (load_rows (district_index districts) (drop 1 file_rows) initial_state)
       (\<lambda>st. Inr (dog_graph st, district_graph st))"

section \<open>What the specification counts and names\<close>

text \<open>
  The ownership rows that the specification calls non-skipped for a district id \<open>d\<close> and a
  breed name \<open>b\<close>: six fields, age range and gender not blank, a district field that
  resolves to the district of id \<open>d\<close>, and the capitalized breed name \<open>b\<close> free of the
  mixed-breed marker.
\<close>

definition blank :: "string \<Rightarrow> bool" where
  "blank s = (py_strip s = [])"

definition resolves_to :: "(int \<rightharpoonup> district) \<Rightarrow> string \<Rightarrow> district option" where
  "resolves_to district_mapping field =
     (case py_int field of Inl e \<Rightarrow> None | Inr did \<Rightarrow> district_mapping did)"

definition counts_for :: "(int \<rightharpoonup> district) \<Rightarrow> int \<Rightarrow> string \<Rightarrow> string list \<Rightarrow> bool" where
  "counts_for district_mapping d b row =
     (5 < length row \<and> \<not> blank (row ! 1) \<and> \<not> blank (row ! 2) \<and>
      map_option district_id (resolves_to district_mapping (row ! 4)) = Some d \<and>
      py_capitalize (row ! 5) = b \<and> \<not> py_in ''Mischling'' b)"

text \<open>A row that is valid in every field and meets none of the skip conditions.\<close>

definition parses :: "string \<Rightarrow> bool" where
  "parses field = (case py_int field of Inl e \<Rightarrow> False | Inr n \<Rightarrow> True)"

definition age_range_ok :: "string \<Rightarrow> bool" where
  "age_range_ok raw_age_range =
     (case py_split CHR ''-'' raw_age_range of
        a0 # a1 # others \<Rightarrow> parses a0 \<and> parses a1
      | _ \<Rightarrow> False)"

definition valid_row :: "(int \<rightharpoonup> district) \<Rightarrow> string list \<Rightarrow> bool" where
  "valid_row district_mapping row =
     (5 < length row \<and> parses (row ! 0) \<and> \<not> blank (row ! 1) \<and> \<not> blank (row ! 2) \<and>
      resolves_to district_mapping (row ! 4) \<noteq> None \<and>
      \<not> py_in ''Mischling'' (py_capitalize (row ! 5)) \<and> age_range_ok (row ! 1))"

text \<open>The name of the first row of a district table that carries the id \<open>i\<close>.\<close>

fun first_name :: "int \<Rightarrow> string list list \<Rightarrow> string option" where
  "first_name i [] = None"
| "first_name i (row # rest) =
     (if 2 < length row \<and> py_int (row ! 1) = Inr i then Some (row ! 2) else first_name i rest)"

section \<open>A distance table as a whole\<close>

text \<open>
  The distances of a table in the order of the two loops, the table without a pair of a
  district with itself, the table of finite distances only, and the table with a function
  applied to every distance. \<open>rescale\<close> is the arithmetic of lines 155 to 157 on finite
  numbers, for a minimum \<open>lo\<close> and a maximum \<open>hi\<close>, each operation rounded.
\<close>

definition no_self_pairs :: "distance_table \<Rightarrow> bool" where
  "no_self_pairs t =
     list_all (\<lambda>(origin, ds). list_all (\<lambda>(destination, x). \<not> district_eq origin destination) ds) t"

definition table_distances :: "distance_table \<Rightarrow> pyfloat list" where
  "table_distances t = concat (map (\<lambda>(origin, ds). map snd ds) t)"

fun finite_value :: "pyfloat \<Rightarrow> bool" where
  "finite_value (Fin x) = True"
| "finite_value v = False"

fun real_of :: "pyfloat \<Rightarrow> real" where
  "real_of (Fin x) = x"
| "real_of v = 0"

definition all_finite :: "distance_table \<Rightarrow> bool" where
  "all_finite t = list_all finite_value (table_distances t)"

definition min_distance_of :: "distance_table \<Rightarrow> real" where
  "min_distance_of t = Min (set (map real_of (table_distances t)))"

definition max_distance_of :: "distance_table \<Rightarrow> real" where
  "max_distance_of t = Max (set (map real_of (table_distances t)))"

definition difference_of :: "float_format \<Rightarrow> distance_table \<Rightarrow> pyfloat" where
  \<comment> \<open>\<^verbatim>\<open>max_distance - min_distance\<close> as line 151 computes it\<close>
  "difference_of ff t = fl ff (max_distance_of t - min_distance_of t)"

fun finite_nonzero :: "pyfloat \<Rightarrow> bool" where
  "finite_nonzero (Fin x) = (x \<noteq> 0)"
| "finite_nonzero v = False"

definition rescale :: "float_format \<Rightarrow> real \<Rightarrow> real \<Rightarrow> real \<Rightarrow> real" where
  "rescale ff lo hi x = rnd ff (1 - rnd ff (rnd ff (x - lo) / rnd ff (hi - lo)))"

definition map_distances :: "(pyfloat \<Rightarrow> pyfloat) \<Rightarrow> distance_table \<Rightarrow> distance_table" where
  "map_distances f t =
     map (\<lambda>(origin, ds). (origin, map (\<lambda>(destination, x). (destination, f x)) ds)) t"

definition rescaled :: "float_format \<Rightarrow> distance_table \<Rightarrow> distance_table" where
  "rescaled ff t =
     map_distances (\<lambda>v. Fin (rescale ff (min_distance_of t) (max_distance_of t) (real_of v))) t"

section \<open>Invariant and relations of the loop\<close>

text \<open>
  No key of \<^verbatim>\<open>users\<close> is a district id: line 73 stores a user only under an id that is not
  a key of \<^verbatim>\<open>district_mapping\<close>.
\<close>

definition users_inv :: "(int \<rightharpoonup> district) \<Rightarrow> loader_state \<Rightarrow> bool" where
  "users_inv dm st = (dom (users st) \<inter> dom dm = {})"

text \<open>What lines 74 to 77 do to the owner/breed graph for a user id and a breed.\<close>

definition link_graph :: "int \<Rightarrow> string \<Rightarrow> graph \<Rightarrow> graph" where
  "link_graph uid breed g =
     add_edge (add_vertex (add_vertex g (UserV uid)) (BreedV breed)) (BreedV breed) (UserV uid)"

definition graph_le :: "graph \<Rightarrow> graph \<Rightarrow> bool" where
  "graph_le g g' = (vertices g \<subseteq> vertices g' \<and> edges g \<subseteq> edges g')"

definition same_dog_graph :: "(int \<rightharpoonup> district) \<Rightarrow> loader_state \<Rightarrow> loader_state \<Rightarrow> bool" where
  "same_dog_graph dm s t = (users_inv dm s \<and> users_inv dm t \<and> dog_graph s = dog_graph t)"

section \<open>Sample data\<close>

definition altstadt :: district where
  "altstadt = \<lparr>district_id = 10, district_name = ''Altstadt''\<rparr>"

definition seefeld :: district where
  "seefeld = \<lparr>district_id = 20, district_name = ''Seefeld''\<rparr>"

definition sample_float :: "string \<Rightarrow> py_error + pyfloat" where
  \<comment> \<open>\<^verbatim>\<open>float\<close> on the one literal the samples use\<close>
  "sample_float s = (if s = ''3.5'' then Inr (Fin 3.5) else Inl ValueError)"

definition header :: "string list" where
  "header = [''header'']"

definition three_labradors :: "string list list" where
  "three_labradors =
     [header,
      [''1'', ''20-29'', ''f'', '''', ''10'', ''labrador''],
      [''2'', ''30-39'', ''m'', '''', ''10'', ''Labrador''],
      [''3'', ''40-49'', ''F'', '''', ''10'', ''LABRADOR'']]"

definition mixed_row :: "string list" where
  "mixed_row = [''1'', ''20-29'', ''F'', '''', ''10'', ''mischling gross'']"

definition mixed_row_bad_id :: "string list" where
  "mixed_row_bad_id = [''n/a'', ''20-29'', ''F'', '''', ''10'', ''mischling gross'']"

definition blank_age_row :: "string list" where
  "blank_age_row = [''1'', ''  '', ''F'', '''', ''10'', ''labrador'']"

definition blank_gender_row :: "string list" where
  "blank_gender_row = [''1'', ''20-29'', '''', '''', ''10'', ''labrador'']"

definition unknown_district_row :: "string list" where
  "unknown_district_row = [''1'', ''20-29'', ''F'', '''', ''30'', ''labrador'']"

definition blank_age_bad_id_row :: "string list" where
  "blank_age_bad_id_row = [''n/a'', ''  '', ''F'', '''', ''10'', ''labrador'']"

definition colliding_row :: "string list" where
  "colliding_row = [''10'', ''20-29'', ''F'', '''', ''10'', ''labrador'']"

definition bad_id_row :: "string list" where
  "bad_id_row = [''n/a'', ''20-29'', ''F'', '''', ''10'', ''labrador'']"

definition user1_first_row :: "string list" where
  "user1_first_row = [''1'', ''20-29'', ''F'', '''', ''10'', ''labrador'']"

definition user1_second_row :: "string list" where
  "user1_second_row = [''1'', ''30-39'', ''m'', '''', ''20'', ''poodle'']"

definition wiedikon_rows :: "string list list" where
  "wiedikon_rows =
     [header,
      [''261031'', ''31'', ''Alt-Wiedikon'', ''261'', ''169''],
      [''261032'', ''31'', ''Wiedikon'', ''261'', ''170'']]"

definition sample_format :: float_format where
  \<comment> \<open>the largest double; no rounding, the samples compute exactly in doubles as well\<close>
  "sample_format = \<lparr>rnd = (\<lambda>x. x), fmax = 2 ^ 1024 - 2 ^ 971\<rparr>"

definition two_way_table :: distance_table where
  "two_way_table = [(altstadt, [(seefeld, Fin 2)]), (seefeld, [(altstadt, Fin 6)])]"

definition equal_table :: distance_table where
  "equal_table = [(altstadt, [(seefeld, Fin 5)]), (seefeld, [(altstadt, Fin 5)])]"

definition huge_table :: distance_table where
  "huge_table = [(altstadt, [(seefeld, Fin (- (2 ^ 1023)))]), (seefeld, [(altstadt, Fin (2 ^ 1023))])]"

definition infinite_table :: distance_table where
  "infinite_table = [(altstadt, [(seefeld, Fin 1)]), (seefeld, [(altstadt, PosInf)])]"

section \<open>Evaluation on concrete inputs\<close>

lemmas str_eval = py_int_def py_strip_def py_isspace_def decimal_literal_def is_digit_def
  digit_val_def py_upper_char_def py_lower_char_def lower_letters_def upper_letters_def
  py_upper_def blank_def parses_def resolves_to_def age_range_ok_def

lemmas err_eval = bind_err_def get_item_def dict_lookup_def Let_def

lemmas graph_eval = add_vertex_def add_edge_def w_add_vertex_def w_add_edge_def get_weight_def
  contains_def empty_graph_def empty_weighted_graph_def user_vertex_def district_vertex_def

lemmas loader_eval = process_row_def register_user_def link_row_def initial_state_def
  load_dog_data_def district_index_def

lemmas sample_eval = altstadt_def seefeld_def sample_float_def header_def district_eq_def

lemmas row_eval = mixed_row_def mixed_row_bad_id_def blank_age_row_def blank_gender_row_def
  unknown_district_row_def blank_age_bad_id_row_def colliding_row_def bad_id_row_def

section \<open>normalize_district_distances\<close>

lemma fl_Fin_iff:
  "fl ff x = Fin d \<longleftrightarrow> d = rnd ff x \<and> - fmax ff \<le> rnd ff x \<and> rnd ff x \<le> fmax ff"
  by (auto simp: fl_def)

lemma scan_destinations_fold:
  "scan_destinations origin ds (mn, mx) =
     (if list_all (\<lambda>(destination, x). \<not> district_eq origin destination) ds
      then Inr (fold py_min (map snd ds) mn, fold py_max (map snd ds) mx)
      else Inl AssertionError)"
  by (induction ds arbitrary: mn mx) auto

lemma scan_table_fold:
  "scan_table t (mn, mx) =
     (if no_self_pairs t
      then Inr (fold py_min (table_distances t) mn, fold py_max (table_distances t) mx)
      else Inl AssertionError)"
proof (induction t arbitrary: mn mx)
  case Nil
  then show ?case by (simp add: no_self_pairs_def table_distances_def)
next
  case (Cons p t)
  obtain origin ds where p: "p = (origin, ds)" by (cases p)
  show ?case
    using Cons.IH
    by (simp add: p scan_destinations_fold bind_err_def no_self_pairs_def table_distances_def)
qed

lemma finite_valueE: "finite_value v \<Longrightarrow> \<exists>x. v = Fin x"
  by (cases v) simp_all

lemma fold_py_min_Fin:
  "list_all finite_value xs \<Longrightarrow> fold py_min xs (Fin m) = Fin (fold min (map real_of xs) m)"
proof (induction xs arbitrary: m)
  case Nil
  then show ?case by simp
next
  case (Cons v xs)
  then obtain x where v: "v = Fin x" by (auto dest: finite_valueE)
  have "py_min (Fin x) (Fin m) = Fin (min x m)"
    by (simp add: py_min_def min_def)
  with Cons v show ?case by simp
qed

lemma fold_py_max_Fin:
  "list_all finite_value xs \<Longrightarrow> fold py_max xs (Fin m) = Fin (fold max (map real_of xs) m)"
proof (induction xs arbitrary: m)
  case Nil
  then show ?case by simp
next
  case (Cons v xs)
  then obtain x where v: "v = Fin x" by (auto dest: finite_valueE)
  have "py_max (Fin x) (Fin m) = Fin (max x m)"
    by (simp add: py_max_def max_def)
  with Cons v show ?case by simp
qed

lemma fold_py_min_start:
  assumes "xs \<noteq> []" "list_all finite_value xs"
  shows "fold py_min xs PosInf = Fin (Min (set (map real_of xs)))"
proof (cases xs)
  case Nil
  with assms show ?thesis by simp
next
  case (Cons v vs)
  with assms obtain x where v: "v = Fin x" by (auto dest: finite_valueE)
  have "py_min (Fin x) PosInf = Fin x"
    by (simp add: py_min_def)
  with assms Cons v Min.set_eq_fold [of x "map real_of vs"] show ?thesis
    by (simp add: fold_py_min_Fin)
qed

lemma fold_py_max_start:
  assumes "list_all finite_value xs"
  shows "fold py_max xs (Fin 0) = Fin (Max (insert 0 (set (map real_of xs))))"
  using assms Max.set_eq_fold [of 0 "map real_of xs"] by (simp add: fold_py_max_Fin)

lemma rescale_step:
  assumes "ieee_like ff" and "fl ff (hi - lo) = Fin D" and "D \<noteq> 0" and "lo \<le> x" and "x \<le> hi"
  shows "py_truediv ff (fsub ff (Fin x) (Fin lo)) (Fin D) =
           Inr (Fin (rnd ff (rnd ff (x - lo) / D)))"
    and "fsub ff (Fin 1) (Fin (rnd ff (rnd ff (x - lo) / D))) = Fin (rescale ff lo hi x)"
    and "0 \<le> rescale ff lo hi x" and "rescale ff lo hi x \<le> 1"
proof -
  from assms(1) have m: "a \<le> b \<Longrightarrow> rnd ff a \<le> rnd ff b" for a b
    by (auto simp: ieee_like_def dest: monoD)
  from assms(1) have r0: "rnd ff 0 = 0" and r1: "rnd ff 1 = 1" and big: "1 \<le> fmax ff"
    by (simp_all add: ieee_like_def)
  from assms(2) have D: "D = rnd ff (hi - lo)" and Dmax: "D \<le> fmax ff"
    by (simp_all add: fl_Fin_iff)
  let ?a = "rnd ff (x - lo)"
  from m [of 0 "x - lo"] assms(4) r0 have a0: "0 \<le> ?a" by simp
  from m [of "x - lo" "hi - lo"] assms(5) D have aD: "?a \<le> D" by simp
  with a0 assms(3) have Dpos: "0 < D" by simp
  from a0 aD Dmax big have sub: "fl ff (x - lo) = Fin ?a"
    by (simp add: fl_Fin_iff)
  let ?q = "rnd ff (?a / D)"
  from a0 aD Dpos have "0 \<le> ?a / D" "?a / D \<le> 1"
    by (simp_all add: divide_simps)
  with m [of 0 "?a / D"] m [of "?a / D" 1] r0 r1 have q: "0 \<le> ?q" "?q \<le> 1"
    by simp_all
  with big have "fl ff (?a / D) = Fin ?q"
    by (simp add: fl_Fin_iff)
  with Dpos show "py_truediv ff (fsub ff (Fin x) (Fin lo)) (Fin D) = Inr (Fin ?q)"
    by (simp add: py_truediv_def sub)
  have v: "rescale ff lo hi x = rnd ff (1 - ?q)"
    by (simp add: rescale_def D)
  from q m [of 0 "1 - ?q"] m [of "1 - ?q" 1] r0 r1
  show range: "0 \<le> rescale ff lo hi x" "rescale ff lo hi x \<le> 1"
    by (simp_all add: v)
  with big show "fsub ff (Fin 1) (Fin ?q) = Fin (rescale ff lo hi x)"
    by (simp add: fl_Fin_iff v)
qed

lemma rescale_destinations_ok:
  assumes "ieee_like ff" and "fl ff (hi - lo) = Fin D" and "D \<noteq> 0"
    and "list_all finite_value (map snd ds)"
    and "\<forall>v \<in> snd ` set ds. lo \<le> real_of v \<and> real_of v \<le> hi"
  shows "rescale_destinations ff (Fin lo) (Fin D) ds
     = Inr (map (\<lambda>(destination, v). (destination, Fin (rescale ff lo hi (real_of v)))) ds)"
  using assms(4,5)
proof (induction ds)
  case Nil
  then show ?case by simp
next
  case (Cons p ds)
  obtain destination v where p: "p = (destination, v)" by (cases p)
  with Cons.prems obtain x where v: "v = Fin x" by (auto dest: finite_valueE)
  from Cons.prems p v have x: "lo \<le> x" "x \<le> hi" by auto
  from Cons.prems have "rescale_destinations ff (Fin lo) (Fin D) ds
     = Inr (map (\<lambda>(destination, v). (destination, Fin (rescale ff lo hi (real_of v)))) ds)"
    by (intro Cons.IH) auto
  with rescale_step [OF assms(1-3) x] show ?case
    by (simp add: p v bind_err_def Let_def)
qed

lemma rescale_table_ok:
  assumes "ieee_like ff" and "fl ff (hi - lo) = Fin D" and "D \<noteq> 0"
    and "list_all finite_value (table_distances t)"
    and "\<forall>v \<in> set (table_distances t). lo \<le> real_of v \<and> real_of v \<le> hi"
  shows "rescale_table ff (Fin lo) (Fin D) t
     = Inr (map_distances (\<lambda>v. Fin (rescale ff lo hi (real_of v))) t)"
  using assms(4,5)
proof (induction t)
  case Nil
  then show ?case by (simp add: map_distances_def)
next
  case (Cons p t)
  obtain origin ds where p: "p = (origin, ds)" by (cases p)
  from Cons.prems have here: "list_all finite_value (map snd ds)"
    "\<forall>v \<in> snd ` set ds. lo \<le> real_of v \<and> real_of v \<le> hi"
    and rest: "list_all finite_value (table_distances t)"
    "\<forall>v \<in> set (table_distances t). lo \<le> real_of v \<and> real_of v \<le> hi"
    by (auto simp: p table_distances_def)
  from Cons.IH [OF rest] rescale_destinations_ok [OF assms(1-3) here] show ?case
    by (simp add: p bind_err_def map_distances_def)
qed

lemma table_distances_map:
  "table_distances (map_distances f t) = map f (table_distances t)"
  by (induction t) (auto simp: table_distances_def map_distances_def split: prod.splits)

lemma positive_maximum:
  assumes "xs \<noteq> []" "Max (insert 0 (set xs)) \<noteq> (0::real)"
  shows "Max (insert 0 (set xs)) = Max (set xs)"
proof -
  have "0 \<le> Max (insert 0 (set xs))" by simp
  with assms show ?thesis
    by (auto simp: max_def split: if_splits)
qed

lemma normalize_rescales:
  assumes "ieee_like ff" and "no_self_pairs t" and "table_distances t \<noteq> []" and "all_finite t"
    and "Max (insert 0 (set (map real_of (table_distances t)))) \<noteq> 0"
    and "finite_nonzero (difference_of ff t)"
  shows "normalize_district_distances ff t = Inr (rescaled ff t)"
proof -
  let ?xs = "map real_of (table_distances t)"
  let ?lo = "min_distance_of t" and ?hi = "max_distance_of t"
  from assms(4) have fin: "list_all finite_value (table_distances t)"
    by (simp add: all_finite_def)
  from assms(3) have ne: "?xs \<noteq> []" by simp
  from positive_maximum [OF ne assms(5)] have mx: "Max (insert 0 (set ?xs)) = ?hi"
    by (simp add: max_distance_of_def)
  with assms(5) have hi0: "?hi \<noteq> 0" by simp
  from assms(6) obtain D where D: "fl ff (?hi - ?lo) = Fin D" "D \<noteq> 0"
    by (cases "difference_of ff t") (simp_all add: difference_of_def)
  have range: "\<forall>v \<in> set (table_distances t). ?lo \<le> real_of v \<and> real_of v \<le> ?hi"
    by (simp add: min_distance_of_def max_distance_of_def)
  have scan: "scan_table t (PosInf, Fin 0) = Inr (Fin ?lo, Fin ?hi)"
    using assms(2,3) fin mx
    by (simp add: scan_table_fold fold_py_min_start fold_py_max_start min_distance_of_def)
  show ?thesis
    using rescale_table_ok [OF assms(1) D fin range] hi0 D(1)
    by (simp add: normalize_district_distances_def scan bind_err_def rescaled_def)
qed

text \<open>
  C1, as amended. Take a format whose rounding is monotone and keeps 0 and 1, and a
  non-empty table without a pair of a district with itself, whose distances are all finite,
  whose maximum as the function computes it (from 0) is not 0, and whose difference of
  maximum and minimum, as line 151 computes it, is finite and not 0 (the minimum is below
  the maximum and the subtraction does not overflow). Then the call returns; every distance
  \<open>x\<close> has become the rounded \<open>1 - (x - min) / (max - min)\<close>, every value of the result lies
  between 0.0 and 1.0, the minimum has become 1.0 and the maximum 0.0.
\<close>

theorem normalize_scores_in_range:
  assumes "ieee_like ff" and "no_self_pairs t" and "table_distances t \<noteq> []" and "all_finite t"
    and "Max (insert 0 (set (map real_of (table_distances t)))) \<noteq> 0"
    and "finite_nonzero (difference_of ff t)"
  shows "normalize_district_distances ff t = Inr (rescaled ff t) \<and>
     (\<forall>v \<in> set (table_distances (rescaled ff t)). fle (Fin 0) v \<and> fle v (Fin 1)) \<and>
     rescale ff (min_distance_of t) (max_distance_of t) (min_distance_of t) = 1 \<and>
     rescale ff (min_distance_of t) (max_distance_of t) (max_distance_of t) = 0"
proof -
  let ?lo = "min_distance_of t" and ?hi = "max_distance_of t"
  from assms(6) obtain D where D: "fl ff (?hi - ?lo) = Fin D" "D \<noteq> 0"
    by (cases "difference_of ff t") (simp_all add: difference_of_def)
  from assms(1) have r0: "rnd ff 0 = 0" and r1: "rnd ff 1 = 1"
    by (simp_all add: ieee_like_def)
  from D have d: "rnd ff (?hi - ?lo) \<noteq> 0"
    by (simp add: fl_Fin_iff)
  have "fle (Fin 0) (Fin (rescale ff ?lo ?hi (real_of v))) \<and>
        fle (Fin (rescale ff ?lo ?hi (real_of v))) (Fin 1)"
    if "v \<in> set (table_distances t)" for v
  proof -
    from that have "?lo \<le> real_of v" "real_of v \<le> ?hi"
      by (simp_all add: min_distance_of_def max_distance_of_def)
    from rescale_step(3,4) [OF assms(1) D this] show ?thesis by simp
  qed
  then have "\<forall>v \<in> set (table_distances (rescaled ff t)). fle (Fin 0) v \<and> fle v (Fin 1)"
    by (auto simp: rescaled_def table_distances_map)
  moreover have "rescale ff ?lo ?hi ?lo = 1" "rescale ff ?lo ?hi ?hi = 0"
    using d by (simp_all add: rescale_def r0 r1)
  ultimately show ?thesis
    using normalize_rescales [OF assms] by simp
qed

text \<open>The theorem at the table of the distances 2 and 6, in the format of the samples.\<close>

theorem normalize_scores_in_range_witness:
  "ieee_like sample_format \<and> no_self_pairs two_way_table \<and> table_distances two_way_table \<noteq> [] \<and>
   all_finite two_way_table \<and>
   Max (insert 0 (set (map real_of (table_distances two_way_table)))) \<noteq> 0 \<and>
   finite_nonzero (difference_of sample_format two_way_table) \<and>
   normalize_district_distances sample_format two_way_table
     = Inr [(altstadt, [(seefeld, Fin 1)]), (seefeld, [(altstadt, Fin 0)])]"
proof -
  have h: "ieee_like sample_format" "no_self_pairs two_way_table"
    "table_distances two_way_table \<noteq> []" "all_finite two_way_table"
    "Max (insert 0 (set (map real_of (table_distances two_way_table)))) \<noteq> 0"
    "finite_nonzero (difference_of sample_format two_way_table)"
    by (simp_all add: two_way_table_def no_self_pairs_def table_distances_def all_finite_def
        min_distance_of_def max_distance_of_def difference_of_def fl_def ieee_like_def mono_def
        sample_format_def sample_eval)
  have "rescaled sample_format two_way_table
      = [(altstadt, [(seefeld, Fin 1)]), (seefeld, [(altstadt, Fin 0)])]"
    by (simp add: two_way_table_def rescaled_def map_distances_def rescale_def
        table_distances_def min_distance_of_def max_distance_of_def sample_format_def)
  with normalize_scores_in_range [OF h] h show ?thesis
    by simp
qed

text \<open>
  C1 as stated fails on three non-empty tables whose maximum is not 0. Two districts 5 km
  apart in both directions: the difference of maximum and minimum is 0 and the first
  division raises ZeroDivisionError. The distances \<open>- 2 ^ 1023\<close> and \<open>2 ^ 1023\<close>: the
  difference overflows to infinity, the second score is nan and the assertion of line 159
  fails. The distances 1 and infinity: the same, the second score is nan.
\<close>

theorem normalize_equal_distances_fails:
  "normalize_district_distances sample_format equal_table = Inl ZeroDivisionError \<and>
   normalize_district_distances sample_format huge_table = Inl AssertionError \<and>
   normalize_district_distances sample_format infinite_table = Inl AssertionError"
  by (simp add: normalize_district_distances_def equal_table_def huge_table_def
      infinite_table_def py_min_def py_max_def py_truediv_def fl_def sample_format_def
      err_eval sample_eval)

text \<open>
  The defect in general: every non-empty table of finite distances without a pair of a
  district with itself, whose distances are all the same positive number, passes the guard
  of line 149 and raises ZeroDivisionError.
\<close>

lemma normalize_equal_distances:
  assumes "ieee_like ff" and "no_self_pairs t" and "table_distances t \<noteq> []" and "all_finite t"
    and "0 < max_distance_of t" and "min_distance_of t = max_distance_of t"
  shows "normalize_district_distances ff t = Inl ZeroDivisionError"
proof -
  let ?xs = "map real_of (table_distances t)"
  from assms(4) have fin: "list_all finite_value (table_distances t)"
    by (simp add: all_finite_def)
  from assms(3,5) have mx: "Max (insert 0 (set ?xs)) = max_distance_of t"
    by (simp add: max_distance_of_def max_def)
  from assms(1) have "fl ff 0 = Fin 0"
    by (simp add: fl_Fin_iff ieee_like_def)
  then have diff: "fl ff (max_distance_of t - min_distance_of t) = Fin 0"
    by (simp add: assms(6))
  have scan: "scan_table t (PosInf, Fin 0) = Inr (Fin (min_distance_of t), Fin (max_distance_of t))"
    using assms(2,3) fin mx
    by (simp add: scan_table_fold fold_py_min_start fold_py_max_start min_distance_of_def)
  have "rescale_table ff m (Fin 0) t = Inl ZeroDivisionError" for m
    using assms(3)
  proof (induction t)
    case Nil
    then show ?case by (simp add: table_distances_def)
  next
    case (Cons p t)
    obtain origin ds where p: "p = (origin, ds)" by (cases p)
    show ?case
    proof (cases ds)
      case Nil
      with Cons p show ?thesis by (simp add: table_distances_def bind_err_def)
    next
      case (Cons q qs)
      then show ?thesis by (cases q) (simp add: p bind_err_def py_truediv_def)
    qed
  qed
  with assms(5) show ?thesis
    by (simp add: normalize_district_distances_def scan bind_err_def diff)
qed

text \<open>
  C2. The claim: an error exactly when the maximum is 0, and never a division by zero. The
  table of one pair at distance 5 has maximum 5 and raises ZeroDivisionError, in every
  format whose rounding keeps 0.
\<close>

theorem normalize_single_pair_divides_by_zero:
  assumes "ieee_like ff"
  shows "normalize_district_distances ff [(altstadt, [(seefeld, Fin 5)])] = Inl ZeroDivisionError"
proof -
  from assms have "fl ff 0 = Fin 0"
    by (simp add: fl_Fin_iff ieee_like_def)
  then show ?thesis
    by (simp add: normalize_district_distances_def py_min_def py_max_def py_truediv_def
        err_eval sample_eval)
qed

text \<open>The theorem in the format of the samples.\<close>

theorem normalize_single_pair_divides_by_zero_witness:
  "ieee_like sample_format \<and>
   normalize_district_distances sample_format [(altstadt, [(seefeld, Fin 5)])]
     = Inl ZeroDivisionError"
proof -
  have h: "ieee_like sample_format"
    by (simp add: ieee_like_def mono_def sample_format_def)
  with normalize_single_pair_divides_by_zero [OF h] show ?thesis
    by simp
qed

section \<open>get_raw_district_distances\<close>

text \<open>
  C5. The claim: an unknown destination is dropped and an unknown origin skips the row,
  without an error. Both lookups are \<^verbatim>\<open>district_lookup[...]\<close> and raise KeyError: first a
  row of the unknown origin 30, then a row of origin 10 with the unknown destination 30.
  A destination equal to the origin is dropped, as the third table shows.
\<close>

theorem unknown_district_in_distance_row_raises:
  "get_raw_district_distances sample_float [altstadt, seefeld] [header, [''30'', ''10:3.5'']]
     = Inl KeyError \<and>
   get_raw_district_distances sample_float [altstadt, seefeld]
     [header, [''10'', ''20:3.5|30:3.5'']] = Inl KeyError \<and>
   get_raw_district_distances sample_float [altstadt, seefeld]
     [header, [''10'', ''10:3.5|20:3.5'']] = Inr [(altstadt, [(seefeld, Fin 3.5)])]"
  by (simp add: get_raw_district_distances_def district_index_def err_eval str_eval sample_eval)

section \<open>load_dog_data: the rows one by one\<close>

lemma py_upper_char_space: "py_isspace (py_upper_char c) = py_isspace c"
  by (simp add: py_upper_char_def py_isspace_def lower_letters_def upper_letters_def)

lemma py_strip_empty_iff: "py_strip s = [] \<longleftrightarrow> (\<forall>c \<in> set s. py_isspace c)"
proof -
  have "(\<forall>x \<in> set (dropWhile py_isspace s). py_isspace x) \<longleftrightarrow> dropWhile py_isspace s = []"
    using hd_dropWhile [of py_isspace s] by (cases "dropWhile py_isspace s") (auto dest: set_dropWhileD)
  then show ?thesis
    by (simp add: py_strip_def)
qed

lemma blank_upper: "py_strip (py_upper s) = [] \<longleftrightarrow> blank s"
  by (simp add: py_strip_empty_iff blank_def py_upper_def py_upper_char_space)

lemma load_rows_append:
  "load_rows dm (xs @ ys) st = bind_err (load_rows dm xs st) (load_rows dm ys)"
  by (induction xs arbitrary: st) (auto simp: bind_err_def split: sum.splits)

lemma parsesE: "parses f \<Longrightarrow> \<exists>n. py_int f = Inr n"
  by (auto simp: parses_def split: sum.splits)

lemma skip_blank_age:
  "1 < length row \<Longrightarrow> parses (row ! 0) \<Longrightarrow> blank (row ! 1) \<Longrightarrow> process_row dm row st = Inr st"
  by (auto simp: process_row_def bind_err_def get_item_def blank_def dest!: parsesE)

lemma skip_blank_gender:
  "2 < length row \<Longrightarrow> parses (row ! 0) \<Longrightarrow> blank (row ! 2) \<Longrightarrow> process_row dm row st = Inr st"
  by (auto simp: process_row_def bind_err_def get_item_def blank_upper dest!: parsesE)

lemma skip_unresolved:
  "4 < length row \<Longrightarrow> parses (row ! 0) \<Longrightarrow> py_int (row ! 4) = Inr did \<Longrightarrow> dm did = None \<Longrightarrow> process_row dm row st = Inr st"
  by (auto simp: process_row_def bind_err_def get_item_def blank_upper dest!: parsesE)

lemma skip_mixed:
  "5 < length row \<Longrightarrow> parses (row ! 0) \<Longrightarrow> parses (row ! 4) \<Longrightarrow> py_in ''Mischling'' (py_capitalize (row ! 5)) \<Longrightarrow> process_row dm row st = Inr st"
  by (auto simp: process_row_def bind_err_def get_item_def blank_upper dest!: parsesE split: option.splits)


lemma process_row_valid:
  assumes "valid_row dm row"
  shows "\<exists>uid a t. py_int (row ! 0) = Inr uid \<and> resolves_to dm (row ! 4) = Some t \<and>
    (\<forall>st. process_row dm row st =
      (let st1 = register_user dm \<lparr>user_id = uid, user_age = a, user_gender = py_upper (row ! 2),
                                   user_district = t\<rparr> st
       in bind_err (dict_lookup (users st1) uid)
            (\<lambda>user. Inr (link_row user (py_capitalize (row ! 5)) st1))))"
proof -
  from assms obtain uid where u: "py_int (row ! 0) = Inr uid"
    by (auto simp: valid_row_def dest!: parsesE)
  from assms obtain t where t: "resolves_to dm (row ! 4) = Some t"
    by (auto simp: valid_row_def)
  from assms obtain a0 a1 others lo hi where
    sp: "py_split CHR ''-'' (row ! 1) = a0 # a1 # others" "py_int a0 = Inr lo" "py_int a1 = Inr hi"
    by (auto simp: valid_row_def age_range_ok_def parses_def split: list.splits sum.splits)
  from assms have basic: "5 < length row" "py_strip (row ! 1) \<noteq> []"
    "py_strip (py_upper (row ! 2)) \<noteq> []" "\<not> py_in ''Mischling'' (py_capitalize (row ! 5))"
    by (auto simp: valid_row_def blank_upper blank_def)
  have "\<forall>st. process_row dm row st =
      (let st1 = register_user dm \<lparr>user_id = uid, user_age = (lo + hi) div 2,
                    user_gender = py_upper (row ! 2), user_district = t\<rparr> st
       in bind_err (dict_lookup (users st1) uid)
            (\<lambda>user. Inr (link_row user (py_capitalize (row ! 5)) st1)))"
    using u t sp basic
    by (auto simp: process_row_def bind_err_def get_item_def Let_def resolves_to_def
        split: sum.splits option.splits)
  with u t show ?thesis by blast
qed

lemma process_row_Inr:
  assumes "process_row dm row st = Inr st'"
  shows "valid_row dm row \<or> (st' = st \<and> (\<forall>d b. \<not> counts_for dm d b row))"
  using assms
  by (auto simp: valid_row_def counts_for_def process_row_def bind_err_def get_item_def blank_upper Let_def
      resolves_to_def age_range_ok_def parses_def blank_def
      split: sum.splits option.splits list.splits if_splits)


lemma counts_for_valid:
  assumes "valid_row dm row" "resolves_to dm (row ! 4) = Some t"
  shows "counts_for dm d b row \<longleftrightarrow> district_id t = d \<and> py_capitalize (row ! 5) = b"
  using assms by (auto simp: valid_row_def counts_for_def)

lemma get_weight_link_row:
  "get_weight (district_graph (link_row u breed st)) (DistrictV d) (BreedV b) =
     get_weight (district_graph st) (DistrictV d) (BreedV b) +
       (if district_id (user_district u) = d \<and> breed = b then 1 else 0)"
  by (simp add: link_row_def Let_def get_weight_def w_add_edge_def w_add_vertex_def
      district_vertex_def doubleton_eq_iff)

lemma users_link_row: "users (link_row u breed st) = users st"
  by (simp add: link_row_def Let_def)

lemma process_row_step:
  assumes "process_row dm row st = Inr st'" "users_inv dm st"
  shows "users_inv dm st' \<and>
     get_weight (district_graph st') (DistrictV d) (BreedV b) =
       get_weight (district_graph st) (DistrictV d) (BreedV b) +
         (if counts_for dm d b row then 1 else 0)"
proof (cases "valid_row dm row")
  case False
  with assms process_row_Inr [OF assms(1)] show ?thesis by auto
next
  case True
  from process_row_valid [OF True] obtain uid a t where
    u: "py_int (row ! 0) = Inr uid" and t: "resolves_to dm (row ! 4) = Some t" and
    run: "\<And>st. process_row dm row st =
      (let st1 = register_user dm \<lparr>user_id = uid, user_age = a, user_gender = py_upper (row ! 2),
                                   user_district = t\<rparr> st
       in bind_err (dict_lookup (users st1) uid)
            (\<lambda>user. Inr (link_row user (py_capitalize (row ! 5)) st1)))"
    by blast
  let ?u = "\<lparr>user_id = uid, user_age = a, user_gender = py_upper (row ! 2), user_district = t\<rparr>"
  have fresh: "uid \<notin> dom dm"
  proof
    assume "uid \<in> dom dm"
    moreover from this assms(2) have "users st uid = None"
      by (auto simp: users_inv_def)
    ultimately have "process_row dm row st = Inl KeyError"
      by (simp add: run register_user_def dict_lookup_def bind_err_def)
    with assms(1) show False by simp
  qed
  then have st': "st' = link_row ?u (py_capitalize (row ! 5)) (register_user dm ?u st)"
    using assms(1) by (simp add: run register_user_def dict_lookup_def bind_err_def Let_def)
  have "users st' = (users st)(uid \<mapsto> ?u)"
    using fresh by (simp add: st' users_link_row register_user_def)
  with fresh assms(2) have inv: "users_inv dm st'"
    by (auto simp: users_inv_def)
  have "district_graph (register_user dm ?u st) = district_graph st"
    by (simp add: register_user_def)
  then have "get_weight (district_graph st') (DistrictV d) (BreedV b) =
       get_weight (district_graph st) (DistrictV d) (BreedV b) +
         (if counts_for dm d b row then 1 else 0)"
    by (simp add: st' get_weight_link_row counts_for_valid [OF True t])
  with inv show ?thesis by simp
qed

lemma load_rows_weight:
  "load_rows dm rows st = Inr st' \<Longrightarrow> users_inv dm st \<Longrightarrow>
   users_inv dm st' \<and>
   get_weight (district_graph st') (DistrictV d) (BreedV b) =
     get_weight (district_graph st) (DistrictV d) (BreedV b) +
       int (length (filter (counts_for dm d b) rows))"
proof (induction rows arbitrary: st)
  case Nil
  then show ?case by simp
next
  case (Cons row rows)
  from Cons.prems(1) obtain st1 where
    s1: "process_row dm row st = Inr st1" and s2: "load_rows dm rows st1 = Inr st'"
    by (auto simp: bind_err_def split: sum.splits)
  from process_row_step [OF s1 Cons.prems(2), of d b] Cons.IH [OF s2]
  show ?case by auto
qed

lemma process_row_invalid:
  assumes "\<not> valid_row dm row"
  shows "process_row dm row s = (case process_row dm row t of Inl e \<Rightarrow> Inl e | Inr x \<Rightarrow> Inr s)"
  using assms
  by (auto simp: valid_row_def process_row_def bind_err_def get_item_def blank_upper Let_def
      resolves_to_def age_range_ok_def parses_def blank_def
      split: sum.splits option.splits list.splits if_splits)


lemma graph_le_refl: "graph_le g g"
  by (simp add: graph_le_def)

lemma graph_le_trans: "graph_le g g' \<Longrightarrow> graph_le g' g'' \<Longrightarrow> graph_le g g''"
  by (auto simp: graph_le_def)

lemma graph_le_link: "graph_le g (link_graph uid breed g)"
  by (auto simp: graph_le_def link_graph_def add_edge_def add_vertex_def)

lemma link_graph_absorbed:
  "graph_le (link_graph uid breed g) g' \<Longrightarrow> link_graph uid breed g' = g'"
  by (auto simp: graph_le_def link_graph_def add_edge_def add_vertex_def insert_absorb)

lemma dog_graph_link_row:
  "dog_graph (link_row u breed (register_user dm u st)) =
     (if user_id u \<in> dom dm
      then add_edge (add_vertex (dog_graph st) (BreedV breed)) (BreedV breed) (user_vertex u)
      else link_graph (user_id u) breed (dog_graph st))"
  by (simp add: link_row_def register_user_def Let_def link_graph_def user_vertex_def)

lemma valid_row_run:
  assumes "valid_row dm row" "py_int (row ! 0) = Inr uid"
  shows "\<exists>a t. resolves_to dm (row ! 4) = Some t \<and>
    (\<forall>st. process_row dm row st =
      (let st1 = register_user dm \<lparr>user_id = uid, user_age = a, user_gender = py_upper (row ! 2),
                                   user_district = t\<rparr> st
       in bind_err (dict_lookup (users st1) uid)
            (\<lambda>user. Inr (link_row user (py_capitalize (row ! 5)) st1))))"
  using process_row_valid [OF assms(1)] assms(2) by auto

lemma valid_row_collides:
  assumes "valid_row dm row" "py_int (row ! 0) = Inr uid" "uid \<in> dom dm" "users_inv dm st"
  shows "process_row dm row st = Inl KeyError"
proof -
  from valid_row_run [OF assms(1,2)] obtain a t where
    run: "process_row dm row st =
      (let st1 = register_user dm \<lparr>user_id = uid, user_age = a, user_gender = py_upper (row ! 2),
                                   user_district = t\<rparr> st
       in bind_err (dict_lookup (users st1) uid)
            (\<lambda>user. Inr (link_row user (py_capitalize (row ! 5)) st1)))"
    by blast
  from assms(3,4) have "users st uid = None"
    by (auto simp: users_inv_def)
  with assms(3) show ?thesis
    by (simp add: run register_user_def dict_lookup_def bind_err_def)
qed

lemma valid_row_links:
  assumes "valid_row dm row" "py_int (row ! 0) = Inr uid" "uid \<notin> dom dm" "users_inv dm st"
  shows "\<exists>st'. process_row dm row st = Inr st' \<and> users_inv dm st' \<and>
     dog_graph st' = link_graph uid (py_capitalize (row ! 5)) (dog_graph st)"
proof -
  from valid_row_run [OF assms(1,2)] obtain a t where
    run: "process_row dm row st =
      (let st1 = register_user dm \<lparr>user_id = uid, user_age = a, user_gender = py_upper (row ! 2),
                                   user_district = t\<rparr> st
       in bind_err (dict_lookup (users st1) uid)
            (\<lambda>user. Inr (link_row user (py_capitalize (row ! 5)) st1)))"
    by blast
  let ?u = "\<lparr>user_id = uid, user_age = a, user_gender = py_upper (row ! 2), user_district = t\<rparr>"
  let ?st' = "link_row ?u (py_capitalize (row ! 5)) (register_user dm ?u st)"
  have r: "process_row dm row st = Inr ?st'"
    using assms(3) by (simp add: run register_user_def dict_lookup_def bind_err_def Let_def)
  have "users ?st' = (users st)(uid \<mapsto> ?u)"
    using assms(3) by (simp add: users_link_row register_user_def)
  with assms(3,4) have "users_inv dm ?st'"
    by (auto simp: users_inv_def)
  moreover have "dog_graph ?st' = link_graph uid (py_capitalize (row ! 5)) (dog_graph st)"
    using assms(3) dog_graph_link_row [of ?u "py_capitalize (row ! 5)" dm st] by simp
  ultimately show ?thesis using r by blast
qed

lemma link_graph_has_edge:
  "graph_le (link_graph uid breed g) g' \<Longrightarrow>
   UserV uid \<in> vertices g' \<and> BreedV breed \<in> vertices g' \<and> {BreedV breed, UserV uid} \<in> edges g'"
  by (auto simp: graph_le_def link_graph_def add_edge_def add_vertex_def)

lemma valid_row_outcome:
  assumes "valid_row dm row"
  shows "(\<forall>st. users_inv dm st \<longrightarrow> process_row dm row st = Inl KeyError) \<or>
     (\<exists>uid breed. \<forall>st. users_inv dm st \<longrightarrow>
        (\<exists>st'. process_row dm row st = Inr st' \<and> users_inv dm st' \<and>
               dog_graph st' = link_graph uid breed (dog_graph st)))"
proof -
  from process_row_valid [OF assms] obtain uid a t where
    u: "py_int (row ! 0) = Inr uid" and
    run: "\<And>st. process_row dm row st =
      (let st1 = register_user dm \<lparr>user_id = uid, user_age = a, user_gender = py_upper (row ! 2),
                                   user_district = t\<rparr> st
       in bind_err (dict_lookup (users st1) uid)
            (\<lambda>user. Inr (link_row user (py_capitalize (row ! 5)) st1)))"
    by blast
  let ?u = "\<lparr>user_id = uid, user_age = a, user_gender = py_upper (row ! 2), user_district = t\<rparr>"
  show ?thesis
  proof (cases "uid \<in> dom dm")
    case True
    have "process_row dm row st = Inl KeyError" if "users_inv dm st" for st
    proof -
      from True that have "users st uid = None"
        by (auto simp: users_inv_def)
      with True show ?thesis
        by (simp add: run register_user_def dict_lookup_def bind_err_def)
    qed
    then show ?thesis by blast
  next
    case False
    have "\<exists>st'. process_row dm row st = Inr st' \<and> users_inv dm st' \<and>
            dog_graph st' = link_graph uid (py_capitalize (row ! 5)) (dog_graph st)"
      if "users_inv dm st" for st
    proof -
      let ?st' = "link_row ?u (py_capitalize (row ! 5)) (register_user dm ?u st)"
      have r: "process_row dm row st = Inr ?st'"
        using False by (simp add: run register_user_def dict_lookup_def bind_err_def Let_def)
      have "users ?st' = (users st)(uid \<mapsto> ?u)"
        using False by (simp add: users_link_row register_user_def)
      with False that have "users_inv dm ?st'"
        by (auto simp: users_inv_def)
      moreover have "dog_graph ?st' = link_graph uid (py_capitalize (row ! 5)) (dog_graph st)"
        using False dog_graph_link_row [of ?u "py_capitalize (row ! 5)" dm st] by simp
      ultimately show ?thesis using r by blast
    qed
    then show ?thesis by blast
  qed
qed

lemma row_outcome:
  "(\<exists>e. \<forall>st. users_inv dm st \<longrightarrow> process_row dm row st = Inl e) \<or>
   (\<forall>st. process_row dm row st = Inr st) \<or>
   (\<exists>uid breed. \<forall>st. users_inv dm st \<longrightarrow>
        (\<exists>st'. process_row dm row st = Inr st' \<and> users_inv dm st' \<and>
               dog_graph st' = link_graph uid breed (dog_graph st)))"
proof (cases "valid_row dm row")
  case True
  from valid_row_outcome [OF this] show ?thesis by blast
next
  case False
  show ?thesis
  proof (cases "process_row dm row initial_state")
    case (Inl e)
    then have "process_row dm row st = Inl e" for st
      using process_row_invalid [OF False, of st initial_state] by simp
    then show ?thesis by blast
  next
    case (Inr x)
    then have "process_row dm row st = Inr st" for st
      using process_row_invalid [OF False, of st initial_state] by simp
    then show ?thesis by blast
  qed
qed

lemma process_row_sim:
  assumes "same_dog_graph dm s t"
  shows "(\<exists>e. process_row dm row s = Inl e \<and> process_row dm row t = Inl e) \<or>
         (\<exists>s' t'. process_row dm row s = Inr s' \<and> process_row dm row t = Inr t' \<and>
                  same_dog_graph dm s' t')"
  using row_outcome [of dm row] assms unfolding same_dog_graph_def
  by (elim disjE exE) (metis, metis, metis)

lemma load_rows_sim:
  "same_dog_graph dm s t \<Longrightarrow>
   map_sum id dog_graph (load_rows dm rows s) = map_sum id dog_graph (load_rows dm rows t)"
proof (induction rows arbitrary: s t)
  case Nil
  then show ?case by (simp add: same_dog_graph_def)
next
  case (Cons row rows)
  from process_row_sim [OF Cons.prems, of row] show ?case
  proof (elim disjE exE conjE)
    fix e assume "process_row dm row s = Inl e" "process_row dm row t = Inl e"
    then show ?thesis by (simp add: bind_err_def)
  next
    fix s' t'
    assume "process_row dm row s = Inr s'" "process_row dm row t = Inr t'"
      and "same_dog_graph dm s' t'"
    with Cons.IH [of s' t'] show ?thesis by (simp add: bind_err_def)
  qed
qed

lemma process_row_grows:
  assumes "process_row dm row st = Inr st'" "users_inv dm st"
  shows "users_inv dm st' \<and> graph_le (dog_graph st) (dog_graph st')"
  using row_outcome [of dm row] assms
  by (elim disjE exE) (auto simp: graph_le_refl graph_le_link)

lemma load_rows_grows:
  "load_rows dm rows st = Inr st' \<Longrightarrow> users_inv dm st \<Longrightarrow>
   users_inv dm st' \<and> graph_le (dog_graph st) (dog_graph st')"
proof (induction rows arbitrary: st)
  case Nil
  then show ?case by (simp add: graph_le_refl)
next
  case (Cons row rows)
  from Cons.prems(1) obtain st1 where
    s1: "process_row dm row st = Inr st1" and s2: "load_rows dm rows st1 = Inr st'"
    by (auto simp: bind_err_def split: sum.splits)
  from process_row_grows [OF s1 Cons.prems(2)] Cons.IH [OF s2]
  show ?case by (auto intro: graph_le_trans)
qed

lemma process_row_again:
  assumes "process_row dm row st = Inr st1" "users_inv dm st"
    and "users_inv dm st2" "graph_le (dog_graph st1) (dog_graph st2)"
  shows "\<exists>st3. process_row dm row st2 = Inr st3 \<and> same_dog_graph dm st3 st2"
  using row_outcome [of dm row]
proof (elim disjE exE)
  fix e assume "\<forall>st. users_inv dm st \<longrightarrow> process_row dm row st = Inl e"
  with assms(1,2) show ?thesis by simp
next
  assume "\<forall>st. process_row dm row st = Inr st"
  with assms(3) show ?thesis by (simp add: same_dog_graph_def)
next
  fix uid breed
  assume h: "\<forall>st. users_inv dm st \<longrightarrow>
        (\<exists>st'. process_row dm row st = Inr st' \<and> users_inv dm st' \<and>
               dog_graph st' = link_graph uid breed (dog_graph st))"
  from h assms(1,2) have "dog_graph st1 = link_graph uid breed (dog_graph st)"
    by auto
  with assms(4) have "link_graph uid breed (dog_graph st2) = dog_graph st2"
    by (simp add: link_graph_absorbed)
  moreover from h assms(3) obtain st3 where
    "process_row dm row st2 = Inr st3" "users_inv dm st3"
    "dog_graph st3 = link_graph uid breed (dog_graph st2)"
    by blast
  ultimately show ?thesis using assms(3) by (auto simp: same_dog_graph_def)
qed

lemma duplicate_row_load_rows:
  assumes "users_inv dm st"
  shows "map_sum id dog_graph (load_rows dm (pre @ row # mid @ row # post) st) =
         map_sum id dog_graph (load_rows dm (pre @ row # mid @ post) st)"
proof (cases "load_rows dm (pre @ row # mid) st")
  case (Inl e)
  then have "load_rows dm ((pre @ row # mid) @ row # post) st = Inl e"
    "load_rows dm ((pre @ row # mid) @ post) st = Inl e"
    by (simp_all only: load_rows_append [of dm "pre @ row # mid"] bind_err_def sum.case)
  then show ?thesis by simp
next
  case (Inr st2)
  then obtain st0 st1 where
    p: "load_rows dm pre st = Inr st0" and r: "process_row dm row st0 = Inr st1"
    and m: "load_rows dm mid st1 = Inr st2"
    by (auto simp: load_rows_append bind_err_def split: sum.splits)
  from load_rows_grows [OF p assms] have i0: "users_inv dm st0" by simp
  from process_row_grows [OF r i0] have i1: "users_inv dm st1" by simp
  from load_rows_grows [OF m i1] have i2: "users_inv dm st2"
    and le: "graph_le (dog_graph st1) (dog_graph st2)" by simp_all
  from process_row_again [OF r i0 i2 le] obtain st3 where
    again: "process_row dm row st2 = Inr st3" and same: "same_dog_graph dm st3 st2"
    by blast
  have "load_rows dm ((pre @ row # mid) @ row # post) st = load_rows dm post st3"
    using Inr again by (simp only: load_rows_append [of dm "pre @ row # mid"] bind_err_def sum.case load_rows.simps)
  moreover have "load_rows dm ((pre @ row # mid) @ post) st = load_rows dm post st2"
    using Inr by (simp only: load_rows_append [of dm "pre @ row # mid"] bind_err_def sum.case)
  ultimately show ?thesis
    using load_rows_sim [OF same, of post] by simp
qed

section \<open>load_dog_data: the weighted district/breed graph\<close>

text \<open>
  C6. Whenever \<open>load_dog_data\<close> returns its two graphs, the weight of the edge between the
  district of id \<open>d\<close> and the breed \<open>b\<close> in the weighted graph is the number of rows after
  the header that are not skipped, resolve to district \<open>d\<close> and have the capitalized breed
  name \<open>b\<close>; an edge that no row touched has the default weight 0.
\<close>

theorem district_breed_weight_counts_rows:
  assumes "load_dog_data file_rows districts = Inr (g, wg)"
  shows "get_weight wg (DistrictV d) (BreedV b) =
     int (length (filter (counts_for (district_index districts) d b) (drop 1 file_rows)))"
proof -
  from assms obtain st where
    run: "load_rows (district_index districts) (drop 1 file_rows) initial_state = Inr st"
    and wg: "wg = district_graph st"
    by (auto simp: load_dog_data_def bind_err_def split: sum.splits)
  have "users_inv (district_index districts) initial_state"
    by (simp add: users_inv_def initial_state_def)
  from load_rows_weight [OF run this, of d b] show ?thesis
    by (simp add: wg initial_state_def get_weight_def empty_weighted_graph_def)
qed

text \<open>Three Labradors of district 10: the weight is 3.\<close>

theorem district_breed_weight_counts_rows_witness:
  "(\<exists>g wg. load_dog_data three_labradors [altstadt, seefeld] = Inr (g, wg) \<and>
      get_weight wg (DistrictV 10) (BreedV ''Labrador'') = 3)"
proof -
  obtain g wg where run: "load_dog_data three_labradors [altstadt, seefeld] = Inr (g, wg)"
    by (simp add: three_labradors_def loader_eval err_eval str_eval graph_eval sample_eval)
  have "int (length (filter (counts_for (district_index [altstadt, seefeld]) 10 ''Labrador'')
          (drop 1 three_labradors))) = 3"
    by (simp add: three_labradors_def counts_for_def district_index_def str_eval sample_eval)
  with district_breed_weight_counts_rows [OF run, of 10 "''Labrador''"] run
  show ?thesis by simp
qed

section \<open>load_dog_data: the owner/breed graph\<close>

text \<open>
  C9. Take a row that is valid in every field and not skipped, and a file with this row
  that \<open>load_dog_data\<close> turns into the graphs \<open>g\<close> and \<open>w\<close>. The owner/breed graph \<open>g\<close> has
  the user of the row, its breed and the edge between the two. The file with a second copy
  of the row, wherever it stands after the first, gives the same owner/breed graph \<open>g\<close>:
  one edge between the owner and the breed, not two. The second copy is processed all the
  same: in the weighted graph it raises the weight of its district and breed by 1.
\<close>

theorem duplicate_row_one_owner_breed_edge:
  assumes "valid_row (district_index districts) row" and "py_int (row ! 0) = Inr uid"
    and "load_dog_data (h # pre @ row # mid @ post) districts = Inr (g, w)"
  shows "UserV uid \<in> vertices g \<and> BreedV (py_capitalize (row ! 5)) \<in> vertices g \<and>
     {BreedV (py_capitalize (row ! 5)), UserV uid} \<in> edges g \<and>
     (\<exists>w'. load_dog_data (h # pre @ row # mid @ row # post) districts = Inr (g, w') \<and>
        get_weight w' (DistrictV d) (BreedV b) =
          get_weight w (DistrictV d) (BreedV b) +
            (if counts_for (district_index districts) d b row then 1 else 0))"
proof -
  let ?dm = "district_index districts"
  let ?one = "pre @ row # mid @ post" and ?two = "pre @ row # mid @ row # post"
  have inv: "users_inv ?dm initial_state"
    by (simp add: users_inv_def initial_state_def)
  from assms(3) obtain s1 where
    run1: "load_rows ?dm ?one initial_state = Inr s1"
    and g: "g = dog_graph s1" and w: "w = district_graph s1"
    by (auto simp: load_dog_data_def bind_err_def split: sum.splits)
  from run1 obtain st0 st1 where
    p: "load_rows ?dm pre initial_state = Inr st0"
    and r: "process_row ?dm row st0 = Inr st1"
    and rest: "load_rows ?dm (mid @ post) st1 = Inr s1"
    by (auto simp: load_rows_append bind_err_def split: sum.splits)
  from load_rows_grows [OF p inv] have i0: "users_inv ?dm st0" by simp
  have fresh: "uid \<notin> dom ?dm"
  proof
    assume "uid \<in> dom ?dm"
    from valid_row_collides [OF assms(1,2) this i0] r show False by simp
  qed
  from valid_row_links [OF assms(1,2) fresh i0] r
  have i1: "users_inv ?dm st1"
    and link: "dog_graph st1 = link_graph uid (py_capitalize (row ! 5)) (dog_graph st0)"
    by auto
  from load_rows_grows [OF rest i1] link
  have "graph_le (link_graph uid (py_capitalize (row ! 5)) (dog_graph st0)) g"
    by (simp add: g)
  then have edge: "UserV uid \<in> vertices g \<and> BreedV (py_capitalize (row ! 5)) \<in> vertices g \<and>
      {BreedV (py_capitalize (row ! 5)), UserV uid} \<in> edges g"
    by (rule link_graph_has_edge)
  from duplicate_row_load_rows [OF inv, of pre row mid post] run1
  obtain s2 where run2: "load_rows ?dm ?two initial_state = Inr s2"
    and same: "dog_graph s2 = g"
    by (cases "load_rows ?dm ?two initial_state") (simp_all add: g)
  have two: "load_dog_data (h # ?two) districts = Inr (g, district_graph s2)"
    using run2 same by (simp add: load_dog_data_def bind_err_def)
  have "length (filter P ?two) = length (filter P ?one) + (if P row then 1 else 0)"
    for P :: "string list \<Rightarrow> bool"
    by simp
  with load_rows_weight [OF run1 inv, of d b] load_rows_weight [OF run2 inv, of d b]
  have "get_weight (district_graph s2) (DistrictV d) (BreedV b) =
          get_weight w (DistrictV d) (BreedV b) +
            (if counts_for ?dm d b row then 1 else 0)"
    by (simp add: w)
  with two edge show ?thesis by blast
qed

text \<open>
  The theorem at the Labrador of user 1 in district 10: one row and two rows give the same
  owner/breed graph of one edge, and the weights 1 and 2.
\<close>

theorem duplicate_row_one_owner_breed_edge_witness:
  "valid_row (district_index [altstadt, seefeld]) user1_first_row \<and>
   py_int (user1_first_row ! 0) = Inr 1 \<and>
   (\<exists>g w w'. load_dog_data [header, user1_first_row] [altstadt, seefeld] = Inr (g, w) \<and>
      load_dog_data [header, user1_first_row, user1_first_row] [altstadt, seefeld] = Inr (g, w') \<and>
      vertices g = {BreedV ''Labrador'', UserV 1} \<and>
      edges g = {{BreedV ''Labrador'', UserV 1}} \<and>
      get_weight w (DistrictV 10) (BreedV ''Labrador'') = 1 \<and>
      get_weight w' (DistrictV 10) (BreedV ''Labrador'') = 2)"
proof -
  have v: "valid_row (district_index [altstadt, seefeld]) user1_first_row"
    and u: "py_int (user1_first_row ! 0) = Inr 1"
    and c: "counts_for (district_index [altstadt, seefeld]) 10 ''Labrador'' user1_first_row"
    by (simp_all add: user1_first_row_def valid_row_def counts_for_def district_index_def
        str_eval sample_eval)
  obtain g w where
    run: "load_dog_data (header # [] @ user1_first_row # [] @ []) [altstadt, seefeld] = Inr (g, w)"
    by (simp add: user1_first_row_def loader_eval err_eval str_eval graph_eval sample_eval)
  have vs: "vertices g = {BreedV ''Labrador'', UserV 1}"
    and es: "edges g = {{BreedV ''Labrador'', UserV 1}}"
    and wt: "get_weight w (DistrictV 10) (BreedV ''Labrador'') = 1"
    using run
    by (auto simp add: user1_first_row_def loader_eval err_eval str_eval graph_eval sample_eval)
  from duplicate_row_one_owner_breed_edge [OF v u run, of 10 "''Labrador''"] c wt
  obtain w' where
    "load_dog_data (header # [] @ user1_first_row # [] @ user1_first_row # []) [altstadt, seefeld]
       = Inr (g, w')"
    "get_weight w' (DistrictV 10) (BreedV ''Labrador'') = 2"
    by auto
  with v u run vs es wt show ?thesis
    by auto
qed

section \<open>load_dog_data: rows that are skipped\<close>

text \<open>
  C3, as amended. A row of six fields whose user id and district id fields are integers and
  whose capitalized breed name contains \<^verbatim>\<open>Mischling\<close> is skipped without an error: the state
  of the loop stays as it is, and the file with the row gives the result of the file
  without it, so no vertex and no edge of either graph comes from the row.
\<close>

theorem mixed_breed_row_skipped:
  assumes "5 < length row" "parses (row ! 0)" "parses (row ! 4)"
    and "py_in ''Mischling'' (py_capitalize (row ! 5))"
  shows "process_row dm row st = Inr st \<and>
     load_dog_data (h # pre @ row # post) districts = load_dog_data (h # pre @ post) districts"
proof -
  have skip: "process_row dm' row st' = Inr st'" for dm' st'
    using assms by (rule skip_mixed)
  have "load_rows dm' (row # post) = load_rows dm' post" for dm'
    by (rule ext) (simp add: skip bind_err_def)
  then have "load_rows dm' (pre @ row # post) st' = load_rows dm' (pre @ post) st'" for dm' st'
    by (simp only: load_rows_append)
  then show ?thesis
    by (simp add: skip load_dog_data_def)
qed

text \<open>The theorem at the row of user 1, district 10, breed \<^verbatim>\<open>mischling gross\<close>.\<close>

theorem mixed_breed_row_skipped_witness:
  "5 < length mixed_row \<and> parses (mixed_row ! 0) \<and> parses (mixed_row ! 4) \<and>
   py_in ''Mischling'' (py_capitalize (mixed_row ! 5)) \<and>
   process_row (district_index [altstadt, seefeld]) mixed_row initial_state = Inr initial_state \<and>
   load_dog_data (header # [] @ mixed_row # []) [altstadt, seefeld] =
     load_dog_data (header # [] @ []) [altstadt, seefeld]"
  using mixed_breed_row_skipped [of mixed_row "district_index [altstadt, seefeld]" initial_state
      header "[]" "[]" "[altstadt, seefeld]"]
  by (simp add: mixed_row_def str_eval)

text \<open>
  C3 as stated fails: line 56 reads the user id before any check, so a mixed-breed row
  whose user id is not an integer raises ValueError and is not skipped.
\<close>

theorem mixed_breed_row_bad_user_id_raises:
  "py_in ''Mischling'' (py_capitalize (mixed_row_bad_id ! 5)) \<and>
   load_dog_data [header, mixed_row_bad_id] [altstadt, seefeld] = Inl ValueError"
  by (simp add: mixed_row_bad_id_def loader_eval err_eval str_eval)

text \<open>
  C7, as amended. A row whose user id field is an integer and that has a blank age range,
  or a blank gender, or an integer district id that is not in the district lookup, is
  skipped without an error and leaves the two graphs and the user map as they are; a file
  of this row alone gives the two empty graphs.
\<close>

theorem skipped_row_changes_nothing:
  assumes "parses (row ! 0)"
    and "(1 < length row \<and> blank (row ! 1)) \<or> (2 < length row \<and> blank (row ! 2)) \<or>
         (4 < length row \<and> parses (row ! 4) \<and>
          resolves_to (district_index districts) (row ! 4) = None)"
  shows "process_row (district_index districts) row st = Inr st \<and>
     load_dog_data [h, row] districts = Inr (empty_graph, empty_weighted_graph)"
proof -
  have "process_row (district_index districts) row st' = Inr st'" for st'
    using assms(2)
  proof (elim disjE conjE)
    assume "1 < length row" "blank (row ! 1)"
    with assms(1) show ?thesis by (simp add: skip_blank_age)
  next
    assume "2 < length row" "blank (row ! 2)"
    with assms(1) show ?thesis by (simp add: skip_blank_gender)
  next
    assume "4 < length row" "parses (row ! 4)"
      "resolves_to (district_index districts) (row ! 4) = None"
    then obtain did where "4 < length row" "py_int (row ! 4) = Inr did"
      "district_index districts did = None"
      by (auto simp: resolves_to_def dest!: parsesE)
    with assms(1) show ?thesis by (simp add: skip_unresolved)
  qed
  then show ?thesis
    by (simp add: load_dog_data_def bind_err_def initial_state_def)
qed

text \<open>The theorem at one row for each of the three conditions.\<close>

theorem skipped_row_changes_nothing_witness:
  "parses (blank_age_row ! 0) \<and> 1 < length blank_age_row \<and> blank (blank_age_row ! 1) \<and>
   load_dog_data [header, blank_age_row] [altstadt, seefeld] = Inr (empty_graph, empty_weighted_graph) \<and>
   parses (blank_gender_row ! 0) \<and> 2 < length blank_gender_row \<and> blank (blank_gender_row ! 2) \<and>
   load_dog_data [header, blank_gender_row] [altstadt, seefeld] = Inr (empty_graph, empty_weighted_graph) \<and>
   parses (unknown_district_row ! 0) \<and> 4 < length unknown_district_row \<and>
   parses (unknown_district_row ! 4) \<and>
   resolves_to (district_index [altstadt, seefeld]) (unknown_district_row ! 4) = None \<and>
   load_dog_data [header, unknown_district_row] [altstadt, seefeld] = Inr (empty_graph, empty_weighted_graph)"
  using skipped_row_changes_nothing [of blank_age_row "[altstadt, seefeld]" initial_state header]
    skipped_row_changes_nothing [of blank_gender_row "[altstadt, seefeld]" initial_state header]
    skipped_row_changes_nothing [of unknown_district_row "[altstadt, seefeld]" initial_state header]
  by (simp add: row_eval str_eval district_index_def sample_eval)

text \<open>
  C7 as stated fails: a row with a blank age range whose user id is not an integer raises
  ValueError at line 56, before the age range is looked at.
\<close>

theorem blank_age_row_bad_user_id_raises:
  "blank (blank_age_bad_id_row ! 1) \<and>
   load_dog_data [header, blank_age_bad_id_row] [altstadt, seefeld] = Inl ValueError"
  by (simp add: blank_age_bad_id_row_def loader_eval err_eval str_eval)

section \<open>load_dog_data: a user id that is a district id\<close>

text \<open>
  C10, as amended. A file that holds a row valid in every field and not skipped, whose user
  id is a key of the district lookup, never returns: the call raises. The error is the
  KeyError of \<^verbatim>\<open>users[user_id]\<close> at that row whenever the rows before it raise nothing.
\<close>

theorem colliding_user_id_raises:
  assumes "valid_row (district_index districts) row"
    and "py_int (row ! 0) = Inr uid" "uid \<in> dom (district_index districts)"
  shows "(\<exists>e. load_dog_data (h # pre @ row # post) districts = Inl e) \<and>
     ((\<exists>st. load_rows (district_index districts) pre initial_state = Inr st) \<longrightarrow>
        load_dog_data (h # pre @ row # post) districts = Inl KeyError)"
proof -
  let ?dm = "district_index districts"
  have key: "process_row ?dm row st = Inl KeyError" if "users_inv ?dm st" for st
  proof -
    from process_row_valid [OF assms(1)] assms(2) obtain a t where
      run: "process_row ?dm row st =
        (let st1 = register_user ?dm \<lparr>user_id = uid, user_age = a,
                      user_gender = py_upper (row ! 2), user_district = t\<rparr> st
         in bind_err (dict_lookup (users st1) uid)
              (\<lambda>user. Inr (link_row user (py_capitalize (row ! 5)) st1)))"
      by auto
    from that assms(3) have "users st uid = None"
      by (auto simp: users_inv_def)
    with assms(3) show ?thesis
      by (simp add: run register_user_def dict_lookup_def bind_err_def)
  qed
  have inv: "users_inv ?dm initial_state"
    by (simp add: users_inv_def initial_state_def)
  have run: "load_dog_data (h # pre @ row # post) districts =
      bind_err (bind_err (load_rows ?dm pre initial_state) (load_rows ?dm (row # post)))
        (\<lambda>st. Inr (dog_graph st, district_graph st))"
    by (simp add: load_dog_data_def load_rows_append)
  show ?thesis
  proof (cases "load_rows ?dm pre initial_state")
    case (Inl e)
    then show ?thesis by (simp add: run bind_err_def)
  next
    case (Inr st)
    from load_rows_grows [OF Inr inv] have "users_inv ?dm st" by simp
    from key [OF this] Inr show ?thesis by (simp add: run bind_err_def)
  qed
qed

text \<open>The theorem at a file of one row of user id 10, where 10 is a district id.\<close>

theorem colliding_user_id_raises_witness:
  "valid_row (district_index [altstadt, seefeld]) colliding_row \<and>
   py_int (colliding_row ! 0) = Inr 10 \<and> 10 \<in> dom (district_index [altstadt, seefeld]) \<and>
   load_rows (district_index [altstadt, seefeld]) [] initial_state = Inr initial_state \<and>
   load_dog_data (header # [] @ colliding_row # []) [altstadt, seefeld] = Inl KeyError"
  using colliding_user_id_raises [of "[altstadt, seefeld]" colliding_row 10 header "[]" "[]"]
  by (simp add: colliding_row_def valid_row_def str_eval district_index_def sample_eval)

text \<open>
  C10 as stated fails: with a row of a non-integer user id before the colliding row, the
  file holds such a row and the call raises ValueError, not KeyError.
\<close>

theorem colliding_row_after_bad_row_raises_value_error:
  "valid_row (district_index [altstadt, seefeld]) colliding_row \<and>
   py_int (colliding_row ! 0) = Inr 10 \<and> 10 \<in> dom (district_index [altstadt, seefeld]) \<and>
   load_dog_data [header, bad_id_row, colliding_row] [altstadt, seefeld] = Inl ValueError"
  by (simp add: colliding_row_def bad_id_row_def valid_row_def loader_eval err_eval str_eval sample_eval)

section \<open>load_dog_data: the user map\<close>

text \<open>
  C4. The claim: the record of a user is made once, at the first row of the user id, and
  no later row makes or replaces it. The guard of line 72 reads \<^verbatim>\<open>district_mapping\<close>, not
  \<^verbatim>\<open>users\<close>, so every processed row stores a new record. Two rows of user 1: after the
  first the record has age 24, gender F and district 10; after the second it has age 34,
  gender M and district 20, and the Poodle of the second row is counted for district 20.
\<close>

theorem user_record_replaced_by_later_row:
  "bind_err (load_rows (district_index [altstadt, seefeld]) [user1_first_row] initial_state)
     (\<lambda>st. Inr (users st 1))
     = Inr (Some \<lparr>user_id = 1, user_age = 24, user_gender = ''F'', user_district = altstadt\<rparr>) \<and>
   bind_err (load_rows (district_index [altstadt, seefeld]) [user1_first_row, user1_second_row]
       initial_state) (\<lambda>st. Inr (users st 1))
     = Inr (Some \<lparr>user_id = 1, user_age = 34, user_gender = ''M'', user_district = seefeld\<rparr>) \<and>
   bind_err (load_dog_data [header, user1_first_row, user1_second_row] [altstadt, seefeld])
     (\<lambda>(g, w). Inr (get_weight w (DistrictV 10) (BreedV ''Poodle''),
                     get_weight w (DistrictV 20) (BreedV ''Poodle'')))
     = Inr (0, 1)"
  by (simp add: user1_first_row_def user1_second_row_def loader_eval err_eval str_eval graph_eval
      sample_eval doubleton_eq_iff)

section \<open>load_district_data\<close>

text \<open>
  C8 as stated fails: of two rows with the id 31 the set keeps the district of the first,
  \<^verbatim>\<open>Alt-Wiedikon\<close>; the name parsed last, \<^verbatim>\<open>Wiedikon\<close>, is lost.
\<close>

theorem duplicate_district_id_last_name_lost:
  "load_district_data wiedikon_rows = Inr [\<lparr>district_id = 31, district_name = ''Alt-Wiedikon''\<rparr>]"
  by (simp add: wiedikon_rows_def load_district_data_def set_add_def err_eval str_eval sample_eval)

text \<open>
  The loop of \<open>load_district_data\<close>, started on a set \<open>acc\<close>: the result has one member
  for each id, the members of \<open>acc\<close> stay, and a new id gets the name of its first row.
\<close>

lemma district_rows_first:
  "district_rows rows acc = Inr ds \<Longrightarrow> distinct (map district_id acc) \<Longrightarrow>
   distinct (map district_id ds) \<and>
   (\<forall>d. d \<in> set ds \<longleftrightarrow>
      d \<in> set acc \<or>
      (district_id d \<notin> district_id ` set acc \<and>
       first_name (district_id d) rows = Some (district_name d)))"
proof (induction rows arbitrary: acc)
  case Nil
  then show ?case by auto
next
  case (Cons row rows)
  from Cons.prems(1) obtain i where
    len: "2 < length row" and i: "py_int (row ! 1) = Inr i" and
    rest: "district_rows rows (set_add \<lparr>district_id = i, district_name = row ! 2\<rparr> acc) = Inr ds"
    by (auto simp: bind_err_def get_item_def split: sum.splits if_splits)
  let ?new = "\<lparr>district_id = i, district_name = row ! 2\<rparr>"
  have fn: "first_name j (row # rows) = (if j = i then Some (row ! 2) else first_name j rows)" for j
    using len i by auto
  show ?case
  proof (cases "i \<in> district_id ` set acc")
    case True
    then have "set_add ?new acc = acc"
      by (simp add: set_add_def)
    with Cons.IH [OF rest] Cons.prems(2) True show ?thesis
      by (auto simp: fn simp del: first_name.simps)
  next
    case False
    then have acc': "set_add ?new acc = acc @ [?new]"
      by (simp add: set_add_def)
    from False Cons.prems(2) have "distinct (map district_id (acc @ [?new]))"
      by auto
    from Cons.IH [OF rest [unfolded acc'] this]
    have dist: "distinct (map district_id ds)" and
      mem: "\<And>d. d \<in> set ds \<longleftrightarrow>
        d \<in> set (acc @ [?new]) \<or>
        (district_id d \<notin> district_id ` set (acc @ [?new]) \<and>
         first_name (district_id d) rows = Some (district_name d))"
      by blast+
    have new_iff: "d = ?new \<longleftrightarrow> district_id d = i \<and> district_name d = row ! 2" for d
      by (cases d) simp
    have "d \<in> set ds \<longleftrightarrow>
        d \<in> set acc \<or>
        (district_id d \<notin> district_id ` set acc \<and>
         first_name (district_id d) (row # rows) = Some (district_name d))" for d
      using False unfolding mem fn by (auto simp: new_iff)
    with dist show ?thesis by blast
  qed
qed

text \<open>
  C8, as amended. When \<open>load_district_data\<close> returns, no two districts of the result have
  the same id, so rows of one id collapse to a single district, and a district is in the
  result exactly if its name is the name of the first row that carries its id.
\<close>

theorem duplicate_district_id_keeps_first_name:
  assumes "load_district_data file_rows = Inr ds"
  shows "distinct (map district_id ds) \<and>
     (\<forall>d. d \<in> set ds \<longleftrightarrow>
        first_name (district_id d) (drop 1 file_rows) = Some (district_name d))"
  using district_rows_first [of "drop 1 file_rows" "[]" ds] assms
  by (simp add: load_district_data_def)

text \<open>The theorem at the two rows of id 31.\<close>

theorem duplicate_district_id_keeps_first_name_witness:
  "load_district_data wiedikon_rows = Inr [\<lparr>district_id = 31, district_name = ''Alt-Wiedikon''\<rparr>] \<and>
   first_name 31 (drop 1 wiedikon_rows) = Some ''Alt-Wiedikon''"
proof -
  have run: "load_district_data wiedikon_rows
      = Inr [\<lparr>district_id = 31, district_name = ''Alt-Wiedikon''\<rparr>]"
    by (simp add: wiedikon_rows_def load_district_data_def set_add_def err_eval str_eval sample_eval)
  let ?d = "\<lparr>district_id = 31, district_name = ''Alt-Wiedikon''\<rparr>"
  from duplicate_district_id_keeps_first_name [OF run]
  have "?d \<in> set [?d] \<longleftrightarrow>
      first_name (district_id ?d) (drop 1 wiedikon_rows) = Some (district_name ?d)"
    by blast
  with run show ?thesis
    by simp
qed

end
